theory Spec2Isabelle
  imports Complex_Main "HOL-Library.Word"
begin

section \<open>Geometric efficiency by Monte Carlo: the model of Isotropic\_emission.cpp\<close>

text \<open>
  The program estimates the geometric efficiency of a detector of unit radius for an
  isotropically emitting source. This theory embeds its functions, in the order of the
  source file, and proves the properties that the specification states about them.

  Conventions of the embedding.
  \<^item> A C++ \<open>int\<close> is a 32-bit two's complement word (\<open>c_int\<close>): \<open>+\<close> and \<open>*\<close>
    wrap, \<open>sint\<close> reads the value. Loop counters and container sizes are \<open>nat\<close>; the hit
    counter, which never exceeds the sample count, is an \<open>int\<close>.
  \<^item> A C++ \<open>double\<close> is a value of the datatype \<open>double\<close> below: a finite real number,
    one of the two infinities, or NaN. Operations on the special values follow IEEE 754
    (\<open>0/0\<close> and \<open>\<infinity> * 0\<close> are NaN, \<open>x/0\<close> is an infinity for \<open>x \<noteq> 0\<close>, every
    comparison with NaN is false). Operations on finite values are exact: rounding,
    overflow to infinity and underflow are not part of the model, and the two zeros are
    not distinguished. The one exception is \<open>point_source\<close>: what the specification
    says of it depends on rounding, so each operation of its line 114 is rounded to
    binary64 (\<open>round64\<close> below). A property of the other functions is stated on the
    expressions of the source, so that it reads the same in either arithmetic.
  \<^item> \<open>exit(0)\<close>, an uncaught \<open>std::length_error\<close> and an access outside a vector are
    values of the type \<open>error\<close>; a function that can end the run returns
    \<open>error + 'a\<close>.
  \<^item> \<open>std::default_random_engine\<close> and the distributions of \<open><random>\<close> are left to the
    C++ implementation by the standard, so they are a parameter of the model: a
    \<open>sampler\<close> gives the engine state built from a seed and the draws as functions of
    the state.
\<close>

subsection \<open>Integers, doubles, errors\<close>

type_synonym c_int = "32 word"

datatype double = Finite real | PInf | NInf | NaN

datatype error =
    InvalidConfiguration  \<comment> \<open>\<open>exit(0)\<close> after "Not a valid source type" or "Detector types can only be ..."\<close>
  | SizeMismatch          \<comment> \<open>\<open>exit(0)\<close> after "vector addtion with different size vectors"\<close>
  | LengthError           \<comment> \<open>\<open>std::vector<double> v(n)\<close> with a negative \<open>n\<close>\<close>
  | OutOfBounds           \<comment> \<open>\<open>v[i]\<close> with \<open>i\<close> not below \<open>v.size()\<close> (undefined behaviour)\<close>

fun dneg :: "double \<Rightarrow> double" where
  "dneg (Finite a) = Finite (- a)"
| "dneg PInf = NInf"
| "dneg NInf = PInf"
| "dneg NaN = NaN"

fun dadd :: "double \<Rightarrow> double \<Rightarrow> double" where
  "dadd (Finite a) (Finite b) = Finite (a + b)"
| "dadd NaN _ = NaN"
| "dadd _ NaN = NaN"
| "dadd PInf NInf = NaN"
| "dadd NInf PInf = NaN"
| "dadd PInf _ = PInf"
| "dadd NInf _ = NInf"
| "dadd _ PInf = PInf"
| "dadd _ NInf = NInf"

definition dsub :: "double \<Rightarrow> double \<Rightarrow> double" where
  "dsub a b = dadd a (dneg b)"

text \<open>The sign of an infinite product or quotient: \<open>True\<close> for a negative operand.\<close>

fun dnegative :: "double \<Rightarrow> bool" where
  "dnegative (Finite a) = (a < 0)"
| "dnegative PInf = False"
| "dnegative NInf = True"
| "dnegative NaN = False"

definition dinf :: "bool \<Rightarrow> double" where
  "dinf negative = (if negative then NInf else PInf)"

fun dmul :: "double \<Rightarrow> double \<Rightarrow> double" where
  "dmul (Finite a) (Finite b) = Finite (a * b)"
| "dmul NaN _ = NaN"
| "dmul _ NaN = NaN"
| "dmul (Finite a) b = (if a = 0 then NaN else dinf (dnegative (Finite a) \<noteq> dnegative b))"
| "dmul a (Finite b) = (if b = 0 then NaN else dinf (dnegative a \<noteq> dnegative (Finite b)))"
| "dmul a b = dinf (dnegative a \<noteq> dnegative b)"

fun ddiv :: "double \<Rightarrow> double \<Rightarrow> double" where
  "ddiv (Finite a) (Finite b) =
     (if b = 0 then (if a = 0 then NaN else dinf (a < 0)) else Finite (a / b))"
| "ddiv NaN _ = NaN"
| "ddiv _ NaN = NaN"
| "ddiv (Finite a) _ = Finite 0"
| "ddiv a (Finite b) = dinf (dnegative a \<noteq> dnegative (Finite b))"
| "ddiv _ _ = NaN"

fun dsqrt :: "double \<Rightarrow> double" where
  "dsqrt (Finite a) = (if a < 0 then NaN else Finite (sqrt a))"
| "dsqrt PInf = PInf"
| "dsqrt NInf = NaN"
| "dsqrt NaN = NaN"

fun dcos :: "double \<Rightarrow> double" where
  "dcos (Finite a) = Finite (cos a)"
| "dcos _ = NaN"

fun dsin :: "double \<Rightarrow> double" where
  "dsin (Finite a) = Finite (sin a)"
| "dsin _ = NaN"

text \<open>
  The tangent is the quotient of sine and cosine, so that at a pole of the real tangent
  (where HOL's \<open>tan\<close> is 0) the model gives an infinity.
\<close>

definition dtan :: "double \<Rightarrow> double" where
  "dtan a = ddiv (dsin a) (dcos a)"

fun dacos :: "double \<Rightarrow> double" where
  "dacos (Finite a) = (if - 1 \<le> a \<and> a \<le> 1 then Finite (arccos a) else NaN)"
| "dacos _ = NaN"

text \<open>\<open>pow(z, 2)\<close>.\<close>

definition dpow2 :: "double \<Rightarrow> double" where
  "dpow2 a = dmul a a"

text \<open>\<open>a <= b\<close> on doubles.\<close>

fun dle :: "double \<Rightarrow> double \<Rightarrow> bool" where
  "dle (Finite a) (Finite b) = (a \<le> b)"
| "dle NaN _ = False"
| "dle _ NaN = False"
| "dle NInf _ = True"
| "dle _ PInf = True"
| "dle _ _ = False"

text \<open>The conversion of an integer to \<open>double\<close>.\<close>

definition d_of_int :: "int \<Rightarrow> double" where
  "d_of_int i = Finite (of_int i)"

text \<open>\<open>#define pi 3.14159265358979323846\<close>: the literal, not the real number \<open>\<pi>\<close>.\<close>

definition pi_c :: double where
  "pi_c = Finite (314159265358979323846 / 100000000000000000000)"

subsection \<open>The counting loop\<close>

text \<open>
  \<open>for (int i = i0; i < n; i++) body\<close>, with a bound \<open>n\<close> that the body does not change.
  The body may end the run; the loop then ends with the same error.
\<close>

function for_loop :: "nat \<Rightarrow> nat \<Rightarrow> (nat \<Rightarrow> 's \<Rightarrow> error + 's) \<Rightarrow> 's \<Rightarrow> error + 's" where
  "for_loop i n body s =
     (if i < n then (case body i s of Inl e \<Rightarrow> Inl e | Inr s' \<Rightarrow> for_loop (Suc i) n body s')
      else Inr s)"
  by pat_completeness auto
termination
  by (relation "measure (\<lambda>(i, n, body, s). n - i)") auto

declare for_loop.simps [simp del]

subsection \<open>The class \<open>position\<close>\<close>

text \<open>The members \<open>x\<close> and \<open>y\<close> of the class are the fields \<open>pos_x\<close> and \<open>pos_y\<close>.\<close>

record position =
  pos_x :: "double list"
  pos_y :: "double list"

text \<open>
  \<open>add_vec\<close> (lines 22 to 35) compares the size of \<open>x\<close> with the size of \<open>x_diff\<close> only.
  The reads and writes of \<open>y[i]\<close> and \<open>y_diff[i]\<close> are unchecked in the source.
\<close>

definition add_vec_body :: "double list \<Rightarrow> double list \<Rightarrow> nat \<Rightarrow> position \<Rightarrow> error + position" where
  "add_vec_body x_diff y_diff i p =
     (if i < length (pos_x p) \<and> i < length x_diff \<and> i < length (pos_y p) \<and> i < length y_diff
      then Inr (p\<lparr>pos_x := (pos_x p)[i := dadd (pos_x p ! i) (x_diff ! i)],
                  pos_y := (pos_y p)[i := dadd (pos_y p ! i) (y_diff ! i)]\<rparr>)
      else Inl OutOfBounds)"

definition add_vec :: "position \<Rightarrow> double list \<Rightarrow> double list \<Rightarrow> error + position" where
  "add_vec p x_diff y_diff =
     (let size_1 = length (pos_x p); size_2 = length x_diff in
      if size_1 \<noteq> size_2 then Inl SizeMismatch
      else for_loop 0 size_1 (add_vec_body x_diff y_diff) p)"

text \<open>\<open>calculate_rsq\<close> (lines 37 to 45); \<open>r_sq\<close> starts as \<open>size\<close> zeros.\<close>

definition calculate_rsq_body :: "position \<Rightarrow> nat \<Rightarrow> double list \<Rightarrow> error + double list" where
  "calculate_rsq_body p i r_sq =
     (if i < length (pos_x p) \<and> i < length (pos_y p) \<and> i < length r_sq
      then Inr (r_sq[i := dadd (dmul (pos_x p ! i) (pos_x p ! i)) (dmul (pos_y p ! i) (pos_y p ! i))])
      else Inl OutOfBounds)"

definition calculate_rsq :: "position \<Rightarrow> error + double list" where
  "calculate_rsq p =
     (let size = length (pos_x p) in
      for_loop 0 size (calculate_rsq_body p) (replicate size (Finite 0)))"


subsection \<open>The random sampler\<close>

text \<open>
  \<open>engine seed\<close> is the state of \<open>std::default_random_engine generator{seed}\<close>.
  \<open>uniform_real a b g\<close> is one draw of a \<open>std::uniform_real_distribution<double>(a, b)\<close> from
  the engine in state \<open>g\<close>, with the state of the engine after the draw.
  A \<open>std::normal_distribution<double>\<close> may keep a value between draws, so it has a
  state of its own: \<open>normal_fresh\<close> for a distribution just built, and
  \<open>normal_draw mean sigma d g\<close> for one draw.
\<close>

record ('g, 'd) sampler =
  engine :: "c_int \<Rightarrow> 'g"
  uniform_real :: "double \<Rightarrow> double \<Rightarrow> 'g \<Rightarrow> double \<times> 'g"
  normal_fresh :: "'d"
  normal_draw :: "double \<Rightarrow> double \<Rightarrow> 'd \<Rightarrow> 'g \<Rightarrow> double \<times> 'd \<times> 'g"

text \<open>
  What the C++ standard promises of a uniform draw and the model needs for the disc
  bound: the draw is a finite number between the bounds.
\<close>

definition uniform_within :: "('g, 'd) sampler \<Rightarrow> bool" where
  "uniform_within S \<longleftrightarrow>
     (\<forall>a b g. a \<le> b \<longrightarrow>
        (\<exists>u. fst (uniform_real S (Finite a) (Finite b) g) = Finite u \<and> a \<le> u \<and> u \<le> b))"

text \<open>
  A sampler to run the model on: the engine state is the seed plus the number of draws, a
  uniform draw gives the lower bound, a normal draw gives the mean plus two standard
  deviations.
\<close>

definition low_sampler :: "(nat, unit) sampler" where
  "low_sampler =
     \<lparr>engine = (\<lambda>seed. unat seed),
      uniform_real = (\<lambda>a b g. (a, Suc g)),
      normal_fresh = (),
      normal_draw = (\<lambda>mean sigma d g. (dadd mean (dmul (Finite 2) sigma), d, Suc g))\<rparr>"

subsection \<open>The point generators\<close>

text \<open>The two assignments \<open>x[i] = vx; y[i] = vy\<close> that end the body of each generator loop.\<close>

definition assign_xy :: "nat \<Rightarrow> double \<times> double \<Rightarrow> position \<Rightarrow> error + position" where
  "assign_xy i v p =
     (if i < length (pos_x p) \<and> i < length (pos_y p)
      then Inr (p\<lparr>pos_x := (pos_x p)[i := fst v], pos_y := (pos_y p)[i := snd v]\<rparr>)
      else Inl OutOfBounds)"

text \<open>
  One turn of a generator loop: \<open>draw\<close> takes the state of the engine (and of the
  distribution) to the point and the next state; the point is stored at index \<open>i\<close>.
\<close>

definition fill_body ::
  "('s \<Rightarrow> (double \<times> double) \<times> 's) \<Rightarrow> nat \<Rightarrow> 's \<times> position \<Rightarrow> error + 's \<times> position" where
  "fill_body draw i sp =
     (case draw (fst sp) of (v, s') \<Rightarrow>
        (case assign_xy i v (snd sp) of Inl e \<Rightarrow> Inl e | Inr p' \<Rightarrow> Inr (s', p')))"

definition fill :: "('s \<Rightarrow> (double \<times> double) \<times> 's) \<Rightarrow> 's \<Rightarrow> position \<Rightarrow> error + position" where
  "fill draw s p =
     (case for_loop 0 (length (pos_x p)) (fill_body draw) (s, p) of
        Inl e \<Rightarrow> Inl e | Inr sp \<Rightarrow> Inr (snd sp))"

text \<open>\<open>generate_isotropic\<close> (lines 48 to 60).\<close>

definition isotropic_draw :: "('g, 'd) sampler \<Rightarrow> double \<Rightarrow> 'g \<Rightarrow> (double \<times> double) \<times> 'g" where
  "isotropic_draw S z g =
     (case uniform_real S (Finite 0) (dmul (Finite 2) pi_c) g of (phi, g1) \<Rightarrow>
      case uniform_real S (Finite 0) (Finite 1) g1 of (u, g2) \<Rightarrow>
        (let theta = dacos (dsub (Finite 1) (dmul (Finite 2) u)) in
         ((dmul (dmul z (dtan theta)) (dcos phi), dmul (dmul z (dtan theta)) (dsin phi)), g2)))"

definition generate_isotropic ::
  "('g, 'd) sampler \<Rightarrow> double \<Rightarrow> c_int \<Rightarrow> position \<Rightarrow> error + position" where
  "generate_isotropic S z seed p = fill (isotropic_draw S z) (engine S seed) p"

text \<open>\<open>generate_circular_distr\<close> (lines 63 to 75).\<close>

definition circular_draw :: "('g, 'd) sampler \<Rightarrow> double \<Rightarrow> 'g \<Rightarrow> (double \<times> double) \<times> 'g" where
  "circular_draw S r_s g =
     (case uniform_real S (Finite 0) (dmul (Finite 2) pi_c) g of (phi, g1) \<Rightarrow>
      case uniform_real S (Finite 0) (Finite 1) g1 of (u, g2) \<Rightarrow>
        (let r = dmul r_s (dsqrt u) in
         ((dmul r (dcos phi), dmul r (dsin phi)), g2)))"

definition generate_circular_distr ::
  "('g, 'd) sampler \<Rightarrow> double \<Rightarrow> c_int \<Rightarrow> position \<Rightarrow> error + position" where
  "generate_circular_distr S r_s seed p = fill (circular_draw S r_s) (engine S seed) p"

text \<open>\<open>generate_gaussian_distr\<close> (lines 78 to 90); the loop carries the state of \<open>r_distr\<close> too.\<close>

definition gaussian_draw ::
  "('g, 'd) sampler \<Rightarrow> double \<Rightarrow> 'g \<times> 'd \<Rightarrow> (double \<times> double) \<times> 'g \<times> 'd" where
  "gaussian_draw S sigma gd =
     (case uniform_real S (Finite 0) (dmul (Finite 2) pi_c) (fst gd) of (phi, g1) \<Rightarrow>
      case normal_draw S (Finite 0) sigma (snd gd) g1 of (r, d', g2) \<Rightarrow>
        ((dmul r (dcos phi), dmul r (dsin phi)), (g2, d')))"

definition generate_gaussian_distr ::
  "('g, 'd) sampler \<Rightarrow> double \<Rightarrow> c_int \<Rightarrow> position \<Rightarrow> error + position" where
  "generate_gaussian_distr S sigma seed p =
     fill (gaussian_draw S sigma) (engine S seed, normal_fresh S) p"

subsection \<open>Rounding to binary64\<close>

text \<open>
  \<open>ties_even q\<close> is the integer nearest to \<open>q\<close>, the even one of the two when \<open>q\<close> lies
  half way. \<open>ulp_exponent x\<close> is the exponent of the unit in the last place of the
  binary64 numbers around \<open>x\<close>: 52 below the exponent of \<open>x\<close>, and never below that of
  the subnormal numbers. \<open>round64 x\<close> is the binary64 number nearest to \<open>x\<close> (round to
  nearest, ties to even): \<open>x\<close> is rounded to a multiple of that unit, and a result
  of magnitude \<open>2^1024\<close> or more is an infinity. \<open>rounded\<close> leaves the special values
  as they are.
\<close>

definition ties_even :: "real \<Rightarrow> int" where
  "ties_even q =
     (let f = \<lfloor>q\<rfloor> in
      if q - of_int f < 1 / 2 then f
      else if 1 / 2 < q - of_int f then f + 1
      else if even f then f else f + 1)"

definition ulp_exponent :: "real \<Rightarrow> int" where
  "ulp_exponent x = max \<lfloor>log 2 \<bar>x\<bar>\<rfloor> (- 1022) - 52"

definition overflow_bound :: real where
  "overflow_bound = 2 ^ 1024"

definition round64 :: "real \<Rightarrow> double" where
  "round64 x =
     (if x = 0 then Finite 0
      else
        (let u = 2 powi ulp_exponent x; y = of_int (ties_even (x / u)) * u
         in if overflow_bound \<le> \<bar>y\<bar> then dinf (x < 0) else Finite y))"

fun rounded :: "double \<Rightarrow> double" where
  "rounded (Finite v) = round64 v"
| "rounded d = d"

subsection \<open>\<open>linspace\<close> and \<open>point_source\<close>\<close>

text \<open>
  \<open>linspace\<close> (lines 96 to 104). The vector is built first: a negative \<open>nr_points\<close>
  ends the run there. There is no other test of \<open>nr_points\<close>. The parameters
  \<open>min\<close> and \<open>max\<close> of the source are \<open>minv\<close> and \<open>maxv\<close> here.
\<close>

definition linspace_body :: "double \<Rightarrow> double \<Rightarrow> nat \<Rightarrow> double list \<Rightarrow> error + double list" where
  "linspace_body minv delta i out =
     (if i < length out then Inr (out[i := dadd minv (dmul delta (d_of_int (int i)))])
      else Inl OutOfBounds)"

definition linspace :: "double \<Rightarrow> double \<Rightarrow> c_int \<Rightarrow> error + double list" where
  "linspace minv maxv nr_points =
     (if sint nr_points < 0 then Inl LengthError
      else
        (let out = replicate (nat (sint nr_points)) (Finite 0);
             delta = ddiv (dsub maxv minv) (dmul (Finite 1) (d_of_int (sint (nr_points - 1))))
         in for_loop 0 (nat (sint nr_points)) (linspace_body minv delta) out))"

text \<open>
  \<open>point_source\<close> (lines 108 to 118); \<open>ps\<close> is the right-hand side of line 114,
  \<open>50 - (50 * z[i]) / (sqrt(1 + pow(z[i], 2)))\<close>, with the result of each operation
  rounded to binary64. \<open>sqrt\<close> is correctly rounded by IEEE 754; \<open>pow(z, 2)\<close> is taken
  to be the correctly rounded square, which every \<open>pow\<close> with an error below one unit
  in the last place returns when the square is a binary64 number.
\<close>

definition ps :: "double \<Rightarrow> double" where
  "ps z =
     rounded (dsub (Finite 50)
       (rounded (ddiv (rounded (dmul (Finite 50) z))
                      (rounded (dsqrt (rounded (dadd (Finite 1) (rounded (dpow2 z)))))))))"

definition point_source_body :: "double list \<Rightarrow> nat \<Rightarrow> double list \<Rightarrow> error + double list" where
  "point_source_body z i out =
     (if i < length z \<and> i < length out then Inr (out[i := ps (z ! i)]) else Inl OutOfBounds)"

definition point_source :: "double list \<Rightarrow> error + double list" where
  "point_source z =
     (let size = length z in
      for_loop 0 size (point_source_body z) (replicate size (Finite 0)))"

subsection \<open>The estimator \<open>geom_eff_point\<close>\<close>

text \<open>
  Lines 124 to 141: the squared radii of the summed points. The four vectors are built
  before the source type is looked at. \<open>seed++\<close> is \<open>seed + 1\<close> on the 32-bit word.
\<close>

definition r_final ::
  "('g, 'd) sampler \<Rightarrow> double \<Rightarrow> double \<Rightarrow> c_int \<Rightarrow> c_int \<Rightarrow> string \<Rightarrow> error + double list" where
  "r_final S z source n seed source_type =
     (if sint n < 0 then Inl LengthError
      else
        (let zeros = replicate (nat (sint n)) (Finite 0);
             generate_source = \<lparr>pos_x = zeros, pos_y = zeros\<rparr>;
             generate_emission = \<lparr>pos_x = zeros, pos_y = zeros\<rparr>
         in
         case (if source_type = ''uniform'' then generate_circular_distr S source seed generate_source
               else if source_type = ''gaussian'' then generate_gaussian_distr S source seed generate_source
               else Inl InvalidConfiguration) of
           Inl e \<Rightarrow> Inl e
         | Inr generate_source \<Rightarrow>
             (case generate_isotropic S z (seed + 1) generate_emission of
                Inl e \<Rightarrow> Inl e
              | Inr generate_emission \<Rightarrow>
                  (case add_vec generate_source (pos_x generate_emission) (pos_y generate_emission) of
                     Inl e \<Rightarrow> Inl e
                   | Inr generate_source \<Rightarrow> calculate_rsq generate_source))))"

text \<open>Lines 144 to 148: the hit counter.\<close>

definition count_hits_body :: "double list \<Rightarrow> nat \<Rightarrow> int \<Rightarrow> error + int" where
  "count_hits_body r i N_hit =
     (if i < length r then Inr (if dle (r ! i) (Finite 1) then N_hit + 1 else N_hit)
      else Inl OutOfBounds)"

definition count_hits :: "double list \<Rightarrow> c_int \<Rightarrow> error + int" where
  "count_hits r n = for_loop 0 (nat (sint n)) (count_hits_body r) 0"

text \<open>\<open>geom_eff_point\<close> (lines 122 to 150); line 149 is \<open>50.0*N_hit/n\<close>.\<close>

definition geom_eff_point ::
  "('g, 'd) sampler \<Rightarrow> double \<Rightarrow> double \<Rightarrow> c_int \<Rightarrow> c_int \<Rightarrow> string \<Rightarrow> error + double" where
  "geom_eff_point S z source n seed source_type =
     (case r_final S z source n seed source_type of
        Inl e \<Rightarrow> Inl e
      | Inr r \<Rightarrow>
          (case count_hits r n of
             Inl e \<Rightarrow> Inl e
           | Inr N_hit \<Rightarrow> Inr (ddiv (dmul (Finite 50) (d_of_int N_hit)) (d_of_int (sint n)))))"


subsection \<open>The sweep of \<open>main\<close>\<close>

text \<open>
  The values that \<open>main\<close> reads from the command line and from the standard input.
  \<open>n_perpoint\<close> is the value of \<open>pow(10, power)\<close> converted to \<open>int\<close> (line 211);
  \<open>det_fraction\<close> is read for an annular detector only.
\<close>

record inputs =
  source_type :: string
  detector_type :: string
  z_min :: double
  z_max :: double
  n_points :: c_int
  source :: double
  n_perpoint :: c_int
  det_fraction :: double

text \<open>
  The state of the loop of lines 217 to 236: the six vectors of line 213 and, as a
  record of what the loop did, the arguments of every call of \<open>geom_eff_point\<close> that
  returned, in the order of the calls.
\<close>

record call =
  call_z :: double
  call_source :: double
  call_n :: c_int
  call_seed :: c_int
  call_source_type :: string

record sweep_state =
  efficiencies :: "double list"
  rel_ers :: "double list"
  efficiencies_outer :: "double list"
  efficiencies_inner :: "double list"
  rel_ers_outer :: "double list"
  rel_ers_inner :: "double list"
  calls :: "call list"

definition call_geom_eff_point ::
  "('g, 'd) sampler \<Rightarrow> double \<Rightarrow> double \<Rightarrow> c_int \<Rightarrow> c_int \<Rightarrow> string \<Rightarrow> sweep_state
     \<Rightarrow> error + double \<times> sweep_state" where
  "call_geom_eff_point S z src n seed ty st =
     (case geom_eff_point S z src n seed ty of
        Inl e \<Rightarrow> Inl e
      | Inr v \<Rightarrow>
          Inr (v, st\<lparr>calls := calls st @
                 [\<lparr>call_z = z, call_source = src, call_n = n, call_seed = seed,
                   call_source_type = ty\<rparr>]\<rparr>))"

text \<open>\<open>100 / sqrt(2 * n_perpoint*e/100)\<close> (lines 220, 226 and 227); \<open>2 * n_perpoint\<close> is a product of two \<open>int\<close>.\<close>

definition rel_er :: "c_int \<Rightarrow> double \<Rightarrow> double" where
  "rel_er n e =
     ddiv (Finite 100) (dsqrt (ddiv (dmul (d_of_int (sint (2 * n))) e) (Finite 100)))"

text \<open>
  The body of the loop (lines 218 to 233). \<open>seed\<close> is the variable of \<open>main\<close>: it is
  passed by value and the body does not assign it. Line 235 prints and is left out.
\<close>

definition main_body ::
  "('g, 'd) sampler \<Rightarrow> inputs \<Rightarrow> c_int \<Rightarrow> double list \<Rightarrow> nat \<Rightarrow> sweep_state \<Rightarrow> error + sweep_state" where
  "main_body S inp seed z i st =
     (if detector_type inp = ''circular'' then
        (if i < length z \<and> i < length (efficiencies st) \<and> i < length (rel_ers st) then
           (case call_geom_eff_point S (z ! i) (source inp) (n_perpoint inp) seed (source_type inp) st of
              Inl e \<Rightarrow> Inl e
            | Inr (e, st1) \<Rightarrow>
                Inr (st1\<lparr>efficiencies := (efficiencies st1)[i := e],
                          rel_ers := (rel_ers st1)[i := rel_er (n_perpoint inp) e]\<rparr>))
         else Inl OutOfBounds)
      else if detector_type inp = ''annular'' then
        (if i < length z \<and> i < length (efficiencies st) \<and> i < length (rel_ers st)
            \<and> i < length (efficiencies_outer st) \<and> i < length (efficiencies_inner st)
            \<and> i < length (rel_ers_outer st) \<and> i < length (rel_ers_inner st) then
           (case call_geom_eff_point S (z ! i) (source inp) (n_perpoint inp) seed (source_type inp) st of
              Inl e \<Rightarrow> Inl e
            | Inr (e_outer, st1) \<Rightarrow>
                (case call_geom_eff_point S (dmul (z ! i) (det_fraction inp))
                        (dmul (source inp) (det_fraction inp)) (n_perpoint inp) seed (source_type inp) st1 of
                   Inl e \<Rightarrow> Inl e
                 | Inr (e_inner, st2) \<Rightarrow>
                     (let r_outer = rel_er (n_perpoint inp) e_outer;
                          r_inner = rel_er (n_perpoint inp) e_inner
                      in Inr (st2\<lparr>efficiencies_outer := (efficiencies_outer st2)[i := e_outer],
                                   efficiencies_inner := (efficiencies_inner st2)[i := e_inner],
                                   efficiencies := (efficiencies st2)[i := dsub e_outer e_inner],
                                   rel_ers_outer := (rel_ers_outer st2)[i := r_outer],
                                   rel_ers_inner := (rel_ers_inner st2)[i := r_inner],
                                   rel_ers := (rel_ers st2)[i :=
                                      dsqrt (dadd (dmul r_outer r_outer) (dmul r_inner r_inner))]\<rparr>))))
         else Inl OutOfBounds)
      else Inl InvalidConfiguration)"

text \<open>
  Lines 212 to 236 for a given value of the variable \<open>seed\<close>: the distances, the six
  vectors of \<open>n_points\<close> zeros, the loop. The result is the vector \<open>z\<close> and the last state.
\<close>

definition sweep ::
  "('g, 'd) sampler \<Rightarrow> inputs \<Rightarrow> c_int \<Rightarrow> error + double list \<times> sweep_state" where
  "sweep S inp seed =
     (case linspace (z_min inp) (z_max inp) (n_points inp) of
        Inl e \<Rightarrow> Inl e
      | Inr z \<Rightarrow>
          (let zeros = replicate (nat (sint (n_points inp))) (Finite 0);
               st0 = \<lparr>efficiencies = zeros, rel_ers = zeros, efficiencies_outer = zeros,
                      efficiencies_inner = zeros, rel_ers_outer = zeros, rel_ers_inner = zeros,
                      calls = []\<rparr>
           in case for_loop 0 (nat (sint (n_points inp))) (main_body S inp seed z) st0 of
                Inl e \<Rightarrow> Inl e
              | Inr st \<Rightarrow> Inr (z, st)))"

text \<open>
  \<open>main\<close> (lines 168 to 241) without its prompts and its output file: the seed of line
  169, the two tests of lines 183 to 190, the sweep.
\<close>

definition main :: "('g, 'd) sampler \<Rightarrow> inputs \<Rightarrow> error + double list \<times> sweep_state" where
  "main S inp =
     (if source_type inp \<noteq> ''uniform'' \<and> source_type inp \<noteq> ''gaussian'' then Inl InvalidConfiguration
      else if detector_type inp \<noteq> ''circular'' \<and> detector_type inp \<noteq> ''annular'' then Inl InvalidConfiguration
      else sweep S inp 15763027)"


subsection \<open>Notions used to state the properties\<close>

text \<open>
  The state of a generator after \<open>i\<close> turns of its loop, and the point that turn \<open>i\<close>
  stores: the draws are taken from the engine in the order of the turns.
\<close>

definition state_after :: "('s \<Rightarrow> (double \<times> double) \<times> 's) \<Rightarrow> 's \<Rightarrow> nat \<Rightarrow> 's" where
  "state_after draw s i = ((\<lambda>t. snd (draw t)) ^^ i) s"

definition point_at :: "('s \<Rightarrow> (double \<times> double) \<times> 's) \<Rightarrow> 's \<Rightarrow> nat \<Rightarrow> double \<times> double" where
  "point_at draw s i = fst (draw (state_after draw s i))"

text \<open>The object \<open>position(x1, y1)\<close> of line 126: two vectors of \<open>N\<close> zeros.\<close>

definition zero_position :: "nat \<Rightarrow> position" where
  "zero_position N = \<lparr>pos_x = replicate N (Finite 0), pos_y = replicate N (Finite 0)\<rparr>"

text \<open>
  Step 1 of the estimator in the specification: \<open>N\<close> source points by the generator of
  the source profile, from a seed. Step 2: \<open>N\<close> emission offsets at the distance \<open>z\<close>,
  from a seed.
\<close>

definition source_batch ::
  "('g, 'd) sampler \<Rightarrow> string \<Rightarrow> double \<Rightarrow> c_int \<Rightarrow> nat \<Rightarrow> error + position" where
  "source_batch S ty src_size seed N =
     (if ty = ''uniform'' then generate_circular_distr S src_size seed (zero_position N)
      else generate_gaussian_distr S src_size seed (zero_position N))"

definition emission_batch :: "('g, 'd) sampler \<Rightarrow> double \<Rightarrow> c_int \<Rightarrow> nat \<Rightarrow> error + position" where
  "emission_batch S z seed N = generate_isotropic S z seed (zero_position N)"

text \<open>
  The hit test \<open>x\<^sup>2 + y\<^sup>2 \<le> 1\<close>, and the number of indices below \<open>N\<close> at which the
  elementwise sum of two batches passes it.
\<close>

definition inside_unit_disc :: "double \<Rightarrow> double \<Rightarrow> bool" where
  "inside_unit_disc vx vy = dle (dadd (dmul vx vx) (dmul vy vy)) (Finite 1)"

definition summed_hits :: "position \<Rightarrow> position \<Rightarrow> nat \<Rightarrow> nat" where
  "summed_hits src em N =
     length (filter (\<lambda>i. inside_unit_disc (dadd (pos_x src ! i) (pos_x em ! i))
                                           (dadd (pos_y src ! i) (pos_y em ! i))) [0..<N])"

text \<open>
  The arguments of the call of line 219 or 223 at the distance \<open>zi\<close>, and of the call
  of line 224; \<open>run_call\<close> is \<open>geom_eff_point\<close> at the arguments of a call.
\<close>

definition outer_call :: "inputs \<Rightarrow> c_int \<Rightarrow> double \<Rightarrow> call" where
  "outer_call inp seed zi =
     \<lparr>call_z = zi, call_source = source inp, call_n = n_perpoint inp, call_seed = seed,
      call_source_type = source_type inp\<rparr>"

definition inner_call :: "inputs \<Rightarrow> c_int \<Rightarrow> double \<Rightarrow> call" where
  "inner_call inp seed zi =
     \<lparr>call_z = dmul zi (det_fraction inp), call_source = dmul (source inp) (det_fraction inp),
      call_n = n_perpoint inp, call_seed = seed, call_source_type = source_type inp\<rparr>"

definition run_call :: "('g, 'd) sampler \<Rightarrow> call \<Rightarrow> error + double" where
  "run_call S c =
     geom_eff_point S (call_z c) (call_source c) (call_n c) (call_seed c) (call_source_type c)"

text \<open>\<open>sqrt(a * a + b * b)\<close>, the right-hand side of line 228.\<close>

definition quadrature :: "double \<Rightarrow> double \<Rightarrow> double" where
  "quadrature a b = dsqrt (dadd (dmul a a) (dmul b b))"

text \<open>The vectors of line 213 and the state in which the loop of line 217 starts.\<close>

definition zeros :: "nat \<Rightarrow> double list" where
  "zeros N = replicate N (Finite 0)"

definition initial_state :: "nat \<Rightarrow> sweep_state" where
  "initial_state N =
     \<lparr>efficiencies = zeros N, rel_ers = zeros N, efficiencies_outer = zeros N,
      efficiencies_inner = zeros N, rel_ers_outer = zeros N, rel_ers_inner = zeros N,
      calls = []\<rparr>"

text \<open>\<open>delta\<close> of line 98 for the inputs of a sweep.\<close>

definition spacing :: "inputs \<Rightarrow> double" where
  "spacing inp =
     ddiv (dsub (z_max inp) (z_min inp)) (dmul (Finite 1) (d_of_int (sint (n_points inp - 1))))"

text \<open>
  The point-source formula of the specification as a function on the real numbers: what
  line 114 computes up to rounding.
\<close>

definition ps_formula :: "real \<Rightarrow> real" where
  "ps_formula z = 50 - 50 * z / sqrt (1 + z\<^sup>2)"

text \<open>The seeds of the calls of \<open>geom_eff_point\<close> that a run made, in their order.\<close>

definition seeds_passed :: "error + double list \<times> sweep_state \<Rightarrow> c_int list" where
  "seeds_passed r = (case r of Inl e \<Rightarrow> [] | Inr zst \<Rightarrow> map call_seed (calls (snd zst)))"

section \<open>Properties\<close>

subsection \<open>Loops\<close>

text \<open>The rule for a loop whose body never fails under the invariant \<open>I\<close>.\<close>

lemma for_loop_rule:
  assumes "I i s" and "i \<le> n"
    and step: "\<And>j t. i \<le> j \<Longrightarrow> j < n \<Longrightarrow> I j t \<Longrightarrow> \<exists>t'. body j t = Inr t' \<and> I (Suc j) t'"
  shows "\<exists>s'. for_loop i n body s = Inr s' \<and> I n s'"
  using assms
proof (induction "n - i" arbitrary: i s)
  case 0
  then have "i = n" by simp
  with 0 show ?case by (simp add: for_loop.simps)
next
  case (Suc k)
  then have lt: "i < n" by simp
  from Suc.prems(3)[OF le_refl lt Suc.prems(1)] obtain t'
    where t': "body i s = Inr t'" "I (Suc i) t'" by blast
  have "\<exists>s'. for_loop (Suc i) n body t' = Inr s' \<and> I n s'"
  proof (rule Suc.hyps(1))
    show "k = n - Suc i" using Suc.hyps(2) by simp
    show "I (Suc i) t'" by fact
    show "Suc i \<le> n" using lt by simp
    show "\<And>j t. Suc i \<le> j \<Longrightarrow> j < n \<Longrightarrow> I j t \<Longrightarrow> \<exists>t'. body j t = Inr t' \<and> I (Suc j) t'"
      using Suc.prems(3) by simp
  qed
  then show ?case using t' lt by (subst for_loop.simps) simp
qed

text \<open>A loop that writes \<open>f i\<close> at index \<open>i\<close> of a vector of \<open>n\<close> elements.\<close>

lemma for_loop_tabulate:
  assumes len: "length out0 = n"
    and body: "\<And>j out. j < n \<Longrightarrow> length out = n \<Longrightarrow> body j out = Inr (out[j := f j])"
  shows "for_loop 0 n body out0 = Inr (map f [0..<n])"
proof -
  let ?I = "\<lambda>j out. length out = n \<and> (\<forall>k<j. out ! k = f k)"
  have "\<exists>s'. for_loop 0 n body out0 = Inr s' \<and> ?I n s'"
  proof (rule for_loop_rule [where I = ?I])
    show "?I 0 out0" using len by simp
    show "0 \<le> n" by simp
    fix j t assume "0 \<le> j" and j: "j < n" and I: "?I j t"
    have "?I (Suc j) (t[j := f j])"
      using I j by (auto simp: less_Suc_eq nth_list_update)
    moreover have "body j t = Inr (t[j := f j])"
      using body[OF j] I by simp
    ultimately show "\<exists>t'. body j t = Inr t' \<and> ?I (Suc j) t'" by simp
  qed
  then obtain s' where s': "for_loop 0 n body out0 = Inr s'" "length s' = n" "\<forall>k<n. s' ! k = f k"
    by blast
  have "s' = map f [0..<n]"
    by (rule nth_equalityI) (use s' in auto)
  with s' show ?thesis by simp
qed

lemma linspace_eq:
  assumes "0 \<le> sint nr_points"
  shows "linspace minv maxv nr_points =
    Inr (map (\<lambda>i. dadd minv (dmul (ddiv (dsub maxv minv) (dmul (Finite 1) (d_of_int (sint (nr_points - 1))))) (d_of_int (int i))))
          [0..<nat (sint nr_points)])"
  using assms unfolding linspace_def Let_def
  by (simp add: for_loop_tabulate linspace_body_def)

lemma point_source_eq: "point_source z = Inr (map ps z)"
proof -
  have "point_source z = Inr (map (\<lambda>i. ps (z ! i)) [0..<length z])"
    unfolding point_source_def Let_def
    by (rule for_loop_tabulate) (simp_all add: point_source_body_def)
  moreover have "map (\<lambda>i. ps (z ! i)) [0..<length z] = map ps z"
    by (rule nth_equalityI) simp_all
  ultimately show ?thesis by simp
qed

lemma calculate_rsq_eq:
  assumes "length (pos_y p) = length (pos_x p)"
  shows "calculate_rsq p =
    Inr (map (\<lambda>i. dadd (dmul (pos_x p ! i) (pos_x p ! i)) (dmul (pos_y p ! i) (pos_y p ! i)))
          [0..<length (pos_x p)])"
  unfolding calculate_rsq_def Let_def
  by (rule for_loop_tabulate) (simp_all add: calculate_rsq_body_def assms)

lemma state_after_Suc: "state_after draw s (Suc i) = snd (draw (state_after draw s i))"
  by (simp add: state_after_def)

lemma fill_eq:
  fixes draw :: "'s \<Rightarrow> (double \<times> double) \<times> 's"
  assumes lx: "length (pos_x p) = n" and ly: "length (pos_y p) = n"
  shows "fill draw s p =
    Inr \<lparr>pos_x = map (\<lambda>i. fst (point_at draw s i)) [0..<n],
         pos_y = map (\<lambda>i. snd (point_at draw s i)) [0..<n]\<rparr>"
proof -
  let ?I = "\<lambda>j (tq :: 's \<times> position). length (pos_x (snd tq)) = n \<and> length (pos_y (snd tq)) = n
      \<and> fst tq = state_after draw s j
      \<and> (\<forall>k<j. pos_x (snd tq) ! k = fst (point_at draw s k) \<and> pos_y (snd tq) ! k = snd (point_at draw s k))"
  have "\<exists>s'. for_loop 0 n (fill_body draw) (s, p) = Inr s' \<and> ?I n s'"
  proof (rule for_loop_rule [where I = ?I])
    show "?I 0 (s, p)" using lx ly by (simp add: state_after_def)
    show "0 \<le> n" by simp
    fix j tq assume "0 \<le> j" and j: "j < n" and I: "?I j tq"
    obtain v t' where d: "draw (fst tq) = (v, t')" by (cases "draw (fst tq)")
    let ?q = "(snd tq)\<lparr>pos_x := (pos_x (snd tq))[j := fst v], pos_y := (pos_y (snd tq))[j := snd v]\<rparr>"
    have b: "fill_body draw j tq = Inr (t', ?q)"
      using I j d by (simp add: fill_body_def assign_xy_def)
    have v: "v = point_at draw s j" and t': "t' = state_after draw s (Suc j)"
      using I d by (simp_all add: point_at_def state_after_Suc)
    have "?I (Suc j) (t', ?q)"
      using I j v t' by (auto simp: less_Suc_eq nth_list_update)
    with b show "\<exists>t'. fill_body draw j tq = Inr t' \<and> ?I (Suc j) t'" by blast
  qed
  then obtain t q where tq: "for_loop 0 n (fill_body draw) (s, p) = Inr (t, q)"
    and q: "length (pos_x q) = n" "length (pos_y q) = n"
      "\<forall>k<n. pos_x q ! k = fst (point_at draw s k) \<and> pos_y q ! k = snd (point_at draw s k)"
    by fastforce
  have "pos_x q = map (\<lambda>i. fst (point_at draw s i)) [0..<n]"
    by (rule nth_equalityI) (use q in auto)
  moreover have "pos_y q = map (\<lambda>i. snd (point_at draw s i)) [0..<n]"
    by (rule nth_equalityI) (use q in auto)
  ultimately have "q = \<lparr>pos_x = map (\<lambda>i. fst (point_at draw s i)) [0..<n],
         pos_y = map (\<lambda>i. snd (point_at draw s i)) [0..<n]\<rparr>"
    by simp
  with tq show ?thesis using lx by (simp add: fill_def)
qed

lemma add_vec_eq:
  assumes lx: "length (pos_x p) = n" and ly: "length (pos_y p) = n"
    and dx: "length x_diff = n" and dy: "length y_diff = n"
  shows "add_vec p x_diff y_diff =
    Inr \<lparr>pos_x = map (\<lambda>i. dadd (pos_x p ! i) (x_diff ! i)) [0..<n],
         pos_y = map (\<lambda>i. dadd (pos_y p ! i) (y_diff ! i)) [0..<n]\<rparr>"
proof -
  let ?I = "\<lambda>j (q :: position). length (pos_x q) = n \<and> length (pos_y q) = n
      \<and> (\<forall>k<j. pos_x q ! k = dadd (pos_x p ! k) (x_diff ! k) \<and> pos_y q ! k = dadd (pos_y p ! k) (y_diff ! k))
      \<and> (\<forall>k. j \<le> k \<longrightarrow> pos_x q ! k = pos_x p ! k \<and> pos_y q ! k = pos_y p ! k)"
  have "\<exists>s'. for_loop 0 n (add_vec_body x_diff y_diff) p = Inr s' \<and> ?I n s'"
  proof (rule for_loop_rule [where I = ?I])
    show "?I 0 p" using lx ly by simp
    show "0 \<le> n" by simp
    fix j q assume "0 \<le> j" and j: "j < n" and I: "?I j q"
    let ?q = "q\<lparr>pos_x := (pos_x q)[j := dadd (pos_x q ! j) (x_diff ! j)],
                  pos_y := (pos_y q)[j := dadd (pos_y q ! j) (y_diff ! j)]\<rparr>"
    have b: "add_vec_body x_diff y_diff j q = Inr ?q"
      using I j dx dy by (simp add: add_vec_body_def)
    have "?I (Suc j) ?q"
      using I j by (auto simp: less_Suc_eq nth_list_update)
    with b show "\<exists>t'. add_vec_body x_diff y_diff j q = Inr t' \<and> ?I (Suc j) t'" by blast
  qed
  then obtain q where r: "for_loop 0 n (add_vec_body x_diff y_diff) p = Inr q"
    and q: "length (pos_x q) = n" "length (pos_y q) = n"
      "\<forall>k<n. pos_x q ! k = dadd (pos_x p ! k) (x_diff ! k) \<and> pos_y q ! k = dadd (pos_y p ! k) (y_diff ! k)"
    by blast
  have "pos_x q = map (\<lambda>i. dadd (pos_x p ! i) (x_diff ! i)) [0..<n]"
    by (rule nth_equalityI) (use q in auto)
  moreover have "pos_y q = map (\<lambda>i. dadd (pos_y p ! i) (y_diff ! i)) [0..<n]"
    by (rule nth_equalityI) (use q in auto)
  ultimately have "q = \<lparr>pos_x = map (\<lambda>i. dadd (pos_x p ! i) (x_diff ! i)) [0..<n],
         pos_y = map (\<lambda>i. dadd (pos_y p ! i) (y_diff ! i)) [0..<n]\<rparr>"
    by simp
  with r show ?thesis using lx dx by (simp add: add_vec_def)
qed

lemma add_vec_mismatch:
  "length (pos_x p) \<noteq> length x_diff \<Longrightarrow> add_vec p x_diff y_diff = Inl SizeMismatch"
  by (simp add: add_vec_def)

lemma count_hits_eq:
  assumes "nat (sint n) \<le> length r"
  shows "count_hits r n = Inr (int (length (filter (\<lambda>v. dle v (Finite 1)) (take (nat (sint n)) r))))"
proof -
  let ?N = "nat (sint n)"
  let ?I = "\<lambda>j h. h = int (length (filter (\<lambda>v. dle v (Finite 1)) (take j r)))"
  have "\<exists>s'. for_loop 0 ?N (count_hits_body r) 0 = Inr s' \<and> ?I ?N s'"
  proof (rule for_loop_rule [where I = ?I])
    show "?I 0 0" by simp
    show "0 \<le> ?N" by simp
    fix j h assume "0 \<le> j" and j: "j < ?N" and I: "?I j h"
    have jr: "j < length r" using j assms by simp
    then show "\<exists>t'. count_hits_body r j h = Inr t' \<and> ?I (Suc j) t'"
      using I by (simp add: count_hits_body_def take_Suc_conv_app_nth)
  qed
  then show ?thesis by (simp add: count_hits_def)
qed

lemma fill_zero_position:
  "\<exists>q. fill draw s (zero_position N) = Inr q \<and> length (pos_x q) = N \<and> length (pos_y q) = N"
  by (simp add: fill_eq [where n = N] zero_position_def)

lemma source_batch_ok:
  "\<exists>q. source_batch S ty src_size seed N = Inr q \<and> length (pos_x q) = N \<and> length (pos_y q) = N"
  by (simp add: source_batch_def generate_circular_distr_def generate_gaussian_distr_def
      fill_zero_position)

lemma emission_batch_ok:
  "\<exists>q. emission_batch S z seed N = Inr q \<and> length (pos_x q) = N \<and> length (pos_y q) = N"
  by (simp add: emission_batch_def generate_isotropic_def fill_zero_position)

lemma r_final_eq:
  assumes ty: "ty = ''uniform'' \<or> ty = ''gaussian''" and n: "0 \<le> sint n"
    and src: "source_batch S ty src_size seed (nat (sint n)) = Inr src"
    and em: "emission_batch S z (seed + 1) (nat (sint n)) = Inr em"
  shows "r_final S z src_size n seed ty =
    Inr (map (\<lambda>i. dadd (dmul (dadd (pos_x src ! i) (pos_x em ! i)) (dadd (pos_x src ! i) (pos_x em ! i)))
                        (dmul (dadd (pos_y src ! i) (pos_y em ! i)) (dadd (pos_y src ! i) (pos_y em ! i))))
          [0..<nat (sint n)])"
proof -
  let ?N = "nat (sint n)"
  from source_batch_ok [of S ty src_size seed ?N] src
  have ls: "length (pos_x src) = ?N" "length (pos_y src) = ?N" by auto
  from emission_batch_ok [of S z "seed + 1" ?N] em
  have le: "length (pos_x em) = ?N" "length (pos_y em) = ?N" by auto
  let ?sum = "\<lparr>pos_x = map (\<lambda>i. dadd (pos_x src ! i) (pos_x em ! i)) [0..<?N],
               pos_y = map (\<lambda>i. dadd (pos_y src ! i) (pos_y em ! i)) [0..<?N]\<rparr>"
  have a: "add_vec src (pos_x em) (pos_y em) = Inr ?sum"
    using ls le by (rule add_vec_eq)
  have c: "calculate_rsq ?sum =
    Inr (map (\<lambda>i. dadd (dmul (pos_x ?sum ! i) (pos_x ?sum ! i)) (dmul (pos_y ?sum ! i) (pos_y ?sum ! i)))
          [0..<length (pos_x ?sum)])"
    by (rule calculate_rsq_eq) simp
  have g: "(if ty = ''uniform'' then generate_circular_distr S src_size seed (zero_position ?N)
            else if ty = ''gaussian'' then generate_gaussian_distr S src_size seed (zero_position ?N)
            else Inl InvalidConfiguration) = Inr src"
    using ty src by (auto simp: source_batch_def)
  have "r_final S z src_size n seed ty = calculate_rsq ?sum"
    using n g em a
    unfolding r_final_def Let_def emission_batch_def zero_position_def [symmetric]
    by simp
  with c show ?thesis by simp
qed

lemma geom_eff_point_eq:
  assumes ty: "ty = ''uniform'' \<or> ty = ''gaussian''" and n: "0 \<le> sint n"
    and src: "source_batch S ty src_size seed (nat (sint n)) = Inr src"
    and em: "emission_batch S z (seed + 1) (nat (sint n)) = Inr em"
  shows "geom_eff_point S z src_size n seed ty =
    Inr (ddiv (dmul (Finite 50) (d_of_int (int (summed_hits src em (nat (sint n)))))) (d_of_int (sint n)))"
proof -
  let ?N = "nat (sint n)"
  let ?r = "map (\<lambda>i. dadd (dmul (dadd (pos_x src ! i) (pos_x em ! i)) (dadd (pos_x src ! i) (pos_x em ! i)))
                        (dmul (dadd (pos_y src ! i) (pos_y em ! i)) (dadd (pos_y src ! i) (pos_y em ! i))))
          [0..<?N]"
  have r: "r_final S z src_size n seed ty = Inr ?r"
    using assms by (rule r_final_eq)
  have "count_hits ?r n = Inr (int (length (filter (\<lambda>v. dle v (Finite 1)) (take ?N ?r))))"
    by (rule count_hits_eq) simp
  also have "take ?N ?r = ?r" by simp
  also have "length (filter (\<lambda>v. dle v (Finite 1)) ?r) = summed_hits src em ?N"
    by (simp add: filter_map comp_def summed_hits_def inside_unit_disc_def)
  finally have h: "count_hits ?r n = Inr (int (summed_hits src em ?N))" .
  show ?thesis by (simp add: geom_eff_point_def r h)
qed

subsection \<open>The estimator as a function of the two batches\<close>

lemma summed_hits_le: "summed_hits src em N \<le> N"
  unfolding summed_hits_def
  by (rule order_trans [OF length_filter_le]) simp

lemma d_of_int_sint: "0 \<le> sint n \<Longrightarrow> d_of_int (sint n) = Finite (real (nat (sint n)))"
  unfolding d_of_int_def by (simp del: of_int_sint)


lemma geom_eff_point_finite:
  assumes ty: "ty = ''uniform'' \<or> ty = ''gaussian''" and n: "1 \<le> sint n"
    and src: "source_batch S ty src_size seed (nat (sint n)) = Inr src"
    and em: "emission_batch S z (seed + 1) (nat (sint n)) = Inr em"
  shows "geom_eff_point S z src_size n seed ty =
        Inr (Finite (50 * real (summed_hits src em (nat (sint n))) / real (nat (sint n))))"
proof -
  have n0: "0 \<le> sint n" using n by simp
  have "geom_eff_point S z src_size n seed ty =
    Inr (ddiv (dmul (Finite 50) (d_of_int (int (summed_hits src em (nat (sint n)))))) (d_of_int (sint n)))"
    using ty n0 src em by (rule geom_eff_point_eq)
  also have "ddiv (dmul (Finite 50) (d_of_int (int (summed_hits src em (nat (sint n)))))) (d_of_int (sint n))
      = Finite (50 * real (summed_hits src em (nat (sint n))) / real (nat (sint n)))"
  proof -
    define N where "N = nat (sint n)"
    have N: "N \<noteq> 0" using n by (simp add: N_def)
    have "ddiv (dmul (Finite 50) (d_of_int (int (summed_hits src em N)))) (Finite (real N))
      = Finite (50 * real (summed_hits src em N) / real N)"
      using N by (simp add: d_of_int_def)
    then show ?thesis unfolding d_of_int_sint [OF n0] N_def .
  qed
  finally show ?thesis .
qed

subsection \<open>\<open>add_vec\<close>, \<open>point_source\<close> and the uniform disc\<close>

lemma map_index_zip:
  assumes "length ys = length xs"
  shows "map (\<lambda>i. f (xs ! i) (ys ! i)) [0..<length xs] = map2 f xs ys"
  by (rule nth_equalityI) (simp_all add: assms)

lemma ratio_strict_mono:
  fixes a b :: real
  assumes "0 \<le> a" and "a < b"
  shows "a / sqrt (1 + a\<^sup>2) < b / sqrt (1 + b\<^sup>2)"
proof -
  have pa: "0 < sqrt (1 + a\<^sup>2)" and pb: "0 < sqrt (1 + b\<^sup>2)"
    by (simp_all add: add_pos_nonneg)
  have b0: "0 < b" using assms by simp
  have "a\<^sup>2 < b\<^sup>2" using assms by (simp add: power_strict_mono)
  then have "a\<^sup>2 * (1 + b\<^sup>2) < b\<^sup>2 * (1 + a\<^sup>2)" by (simp add: algebra_simps)
  then have "sqrt (a\<^sup>2 * (1 + b\<^sup>2)) < sqrt (b\<^sup>2 * (1 + a\<^sup>2))" by (simp only: real_sqrt_less_iff)
  then have "a * sqrt (1 + b\<^sup>2) < b * sqrt (1 + a\<^sup>2)"
    using assms b0 by (simp add: real_sqrt_mult)
  then show ?thesis using pa pb by (simp add: divide_simps mult.commute)
qed

lemma pi_c_nonneg: "\<exists>t. dmul (Finite 2) pi_c = Finite t \<and> 0 \<le> t"
proof -
  have "dmul (Finite 2) pi_c = Finite (2 * (314159265358979323846 / 100000000000000000000))"
    unfolding pi_c_def by (simp only: dmul.simps)
  moreover have "(0::real) \<le> 2 * (314159265358979323846 / 100000000000000000000)" by simp
  ultimately show ?thesis by blast
qed

lemma circular_draw_inside:
  assumes "uniform_within S"
  shows "\<exists>vx vy. fst (circular_draw S (Finite r) g) = (Finite vx, Finite vy) \<and> vx\<^sup>2 + vy\<^sup>2 \<le> r\<^sup>2"
proof -
  obtain t where t: "dmul (Finite 2) pi_c = Finite t" "0 \<le> t"
    using pi_c_nonneg by blast
  obtain phi where phi: "fst (uniform_real S (Finite 0) (Finite t) g) = Finite phi"
    using assms t(2) unfolding uniform_within_def by blast
  define g1 where "g1 = snd (uniform_real S (Finite 0) (Finite t) g)"
  obtain u where u: "fst (uniform_real S (Finite 0) (Finite 1) g1) = Finite u" "0 \<le> u" "u \<le> 1"
    using assms unfolding uniform_within_def by (metis zero_le_one)
  define g2 where "g2 = snd (uniform_real S (Finite 0) (Finite 1) g1)"
  have d1: "uniform_real S (Finite 0) (Finite t) g = (Finite phi, g1)"
    using phi by (simp add: g1_def prod_eq_iff)
  have d2: "uniform_real S (Finite 0) (Finite 1) g1 = (Finite u, g2)"
    using u(1) by (simp add: g2_def prod_eq_iff)
  have c: "fst (circular_draw S (Finite r) g)
      = (Finite (r * sqrt u * cos phi), Finite (r * sqrt u * sin phi))"
    using u(2) by (simp add: circular_draw_def t(1) d1 d2 Let_def)
  have "(r * sqrt u * cos phi)\<^sup>2 + (r * sqrt u * sin phi)\<^sup>2
      = r\<^sup>2 * (sqrt u)\<^sup>2 * ((cos phi)\<^sup>2 + (sin phi)\<^sup>2)"
    by (simp only: power_mult_distrib distrib_left)
  also have "\<dots> = r\<^sup>2 * u" using u(2) by simp
  also have "\<dots> \<le> r\<^sup>2" using u(3) by (simp add: mult_left_le)
  finally show ?thesis using c by blast
qed

subsection \<open>Binary64 rounding and line 114\<close>

lemma floor_log2_eq:
  assumes "2 powi e \<le> x" and "x < 2 powi (e + 1)"
  shows "\<lfloor>log 2 x\<rfloor> = e"
proof -
  have x: "0 < x" using assms(1) by (rule less_le_trans [rotated]) simp
  have a: "(2::real) powr real_of_int e = 2 powi e"
    by (rule powr_real_of_int') simp_all
  have b: "(2::real) powr real_of_int (e + 1) = 2 powi (e + 1)"
    by (rule powr_real_of_int') simp_all
  have "2 powr real_of_int e \<le> x \<and> x < 2 powr real_of_int (e + 1)"
    unfolding a b using assms by simp
  then show ?thesis using x by (subst floor_log_eq_powr_iff) simp_all
qed

lemma ulp_exponent_eq:
  assumes "2 powi e \<le> \<bar>x\<bar>" and "\<bar>x\<bar> < 2 powi (e + 1)" and "- 1022 \<le> e"
  shows "ulp_exponent x = e - 52"
  using floor_log2_eq [OF assms(1,2)] assms(3) by (simp add: ulp_exponent_def)

lemma round64_eq:
  assumes "2 powi e \<le> \<bar>x\<bar>" and "\<bar>x\<bar> < 2 powi (e + 1)" and "- 1022 \<le> e"
    and "ties_even (x / 2 powi (e - 52)) = m"
  shows "round64 x =
    (if overflow_bound \<le> \<bar>of_int m * 2 powi (e - 52)\<bar> then dinf (x < 0)
     else Finite (of_int m * 2 powi (e - 52)))"
proof -
  have "0 < \<bar>x\<bar>" using assms(1) by (rule less_le_trans [rotated]) simp
  then have "x \<noteq> 0" by simp
  then show ?thesis
    by (simp add: round64_def ulp_exponent_eq [OF assms(1-3)] assms(4) Let_def)
qed

lemma ties_even_of_int [simp]: "ties_even (of_int m) = m"
  by (simp add: ties_even_def)

text \<open>A number \<open>m * 2^k\<close> with a 53-bit \<open>m\<close> in the normal range is a double.\<close>

lemma round64_exact:
  assumes x: "x = of_int m * 2 powi k"
    and m: "2 ^ 52 \<le> \<bar>m\<bar>" "\<bar>m\<bar> < 2 ^ 53" and k: "- 1074 \<le> k" "k \<le> 971"
  shows "round64 x = Finite x"
proof -
  have ax: "\<bar>x\<bar> = of_int \<bar>m\<bar> * 2 powi k" by (simp add: x abs_mult)
  have "(2::real) powi (52 + k) = 2 ^ 52 * 2 powi k"
    by (simp add: power_int_add)
  also have "\<dots> \<le> of_int \<bar>m\<bar> * 2 powi k"
  proof (rule mult_right_mono)
    have "real_of_int (2 ^ 52) \<le> real_of_int \<bar>m\<bar>" using m(1) by (simp only: of_int_le_iff)
    then show "(2::real) ^ 52 \<le> of_int \<bar>m\<bar>" by simp
  qed simp
  finally have lo: "2 powi (52 + k) \<le> \<bar>x\<bar>" by (simp only: ax)
  have "of_int \<bar>m\<bar> * 2 powi k < (2::real) ^ 53 * 2 powi k"
  proof (rule mult_strict_right_mono)
    have "real_of_int \<bar>m\<bar> < real_of_int (2 ^ 53)" using m(2) by (simp only: of_int_less_iff)
    then show "real_of_int \<bar>m\<bar> < 2 ^ 53" by simp
  qed simp
  also have "\<dots> = 2 powi (52 + k + 1)"
    by (simp add: power_int_add)
  finally have hi: "\<bar>x\<bar> < 2 powi (52 + k + 1)" by (simp only: ax)
  have q: "x / 2 powi (52 + k - 52) = of_int m" by (simp add: x)
  have t: "ties_even (x / 2 powi (52 + k - 52)) = m" by (simp only: q ties_even_of_int)
  have "\<bar>x\<bar> < 2 powi (52 + k + 1)" by (rule hi)
  also have "\<dots> \<le> 2 powi 1024"
    using k(2) by (intro power_int_increasing) simp_all
  also have "(2::real) powi 1024 = overflow_bound"
    unfolding overflow_bound_def by (rule power_int_numeral)
  finally have small: "\<not> overflow_bound \<le> \<bar>x\<bar>" by simp
  have "round64 x =
    (if overflow_bound \<le> \<bar>of_int m * 2 powi (52 + k - 52)\<bar> then dinf (x < 0)
     else Finite (of_int m * 2 powi (52 + k - 52)))"
    using lo hi _ t by (rule round64_eq) (use k(1) in simp)
  moreover have "of_int m * 2 powi (52 + k - 52) = x" by (simp add: x)
  ultimately show ?thesis using small by (simp only: if_False)
qed

lemma round64_1: "round64 1 = Finite 1"
  by (rule round64_exact [where m = "2 ^ 52" and k = "- 52"]) (simp_all add: power_int_minus)

lemma round64_50: "round64 50 = Finite 50"
  by (rule round64_exact [where m = "50 * 2 ^ 47" and k = "- 47"]) (simp_all add: power_int_minus)

lemma round64_0: "round64 0 = Finite 0"
  by (simp add: round64_def)

lemma ps_zero: "ps (Finite 0) = Finite 50"
  by (simp add: ps_def dpow2_def dsub_def round64_0 round64_1 round64_50)

lemma round64_pow2:
  assumes "- 1022 \<le> e" and "e \<le> 1023"
  shows "round64 (2 powi e) = Finite (2 powi e)"
proof (rule round64_exact [where m = "2 ^ 52" and k = "e - 52"])
  show "(2::real) powi e = of_int (2 ^ 52) * 2 powi (e - 52)"
    by (simp add: power_int_diff)
qed (use assms in simp_all)

text \<open>\<open>1 + 2^e\<close> for \<open>54 \<le> e\<close> lies less than half a unit above \<open>2^e\<close>.\<close>

lemma round64_one_plus_pow2:
  assumes "54 \<le> e" and "e \<le> 1023"
  shows "round64 (1 + 2 powi e) = Finite (2 powi e)"
proof -
  have p: "(0::real) < 2 powi e" by simp
  have big: "(4::real) \<le> 2 powi (e - 52)"
  proof -
    have "(2::real) powi 2 \<le> 2 powi (e - 52)"
      using assms(1) by (intro power_int_increasing) simp_all
    then show ?thesis by simp
  qed
  have one: "(1::real) < 2 powi e"
  proof -
    have "(2::real) powi 1 \<le> 2 powi e"
      using assms(1) by (intro power_int_increasing) simp_all
    then show ?thesis by simp
  qed
  have lo: "2 powi e \<le> \<bar>1 + (2::real) powi e\<bar>" using p by simp
  have hi: "\<bar>1 + (2::real) powi e\<bar> < 2 powi (e + 1)"
    using one p by (simp add: power_int_add)
  have split: "(2::real) powi e = 2 ^ 52 * 2 powi (e - 52)"
    by (simp add: power_int_diff)
  define r where "r = 1 / (2::real) powi (e - 52)"
  have r: "0 < r" "r \<le> 1 / 4"
    using big by (simp_all add: r_def field_simps)
  have q: "(1 + (2::real) powi e) / 2 powi (e - 52) = of_int (2 ^ 52) + r"
    by (simp add: r_def split add_divide_distrib)
  have fl: "\<lfloor>real_of_int (2 ^ 52) + r\<rfloor> = (2 ^ 52 :: int)"
    using r by (intro floor_unique) simp_all
  have t: "ties_even ((1 + (2::real) powi e) / 2 powi (e - 52)) = 2 ^ 52"
    unfolding q ties_even_def Let_def fl using r by simp
  have "round64 (1 + 2 powi e) =
    (if overflow_bound \<le> \<bar>of_int (2 ^ 52) * 2 powi (e - 52)\<bar> then dinf (1 + (2::real) powi e < 0)
     else Finite (of_int (2 ^ 52) * 2 powi (e - 52)))"
    using lo hi _ t by (rule round64_eq) (use assms in simp)
  moreover have "real_of_int (2 ^ 52) * 2 powi (e - 52) = (2::real) powi e"
    using split by simp
  moreover have "\<not> overflow_bound \<le> \<bar>(2::real) powi e\<bar>"
  proof -
    have "(2::real) powi e < 2 powi 1024"
      using assms(2) by (intro power_int_strict_increasing) simp_all
    also have "(2::real) powi 1024 = overflow_bound"
      unfolding overflow_bound_def by (rule power_int_numeral)
    finally show ?thesis by simp
  qed
  ultimately show ?thesis by (simp only: if_False)
qed


lemma round64_fifty_times_pow2:
  assumes "- 1027 \<le> k" and "k \<le> 1018"
  shows "round64 (50 * 2 powi k) = Finite (50 * 2 powi k)"
proof (rule round64_exact [where m = "50 * 2 ^ 47" and k = "k - 47"])
  show "50 * (2::real) powi k = of_int (50 * 2 ^ 47) * 2 powi (k - 47)"
    by (simp add: power_int_diff)
qed (use assms in simp_all)

lemma sqrt_pow2_even: "sqrt (2 powi (2 * k)) = 2 powi k"
proof -
  have "(2::real) powi (2 * k) = (2 powi k)\<^sup>2"
    by (simp add: power2_eq_square flip: power_int_add)
  then show ?thesis by simp
qed

lemma ps_large_pow2:
  assumes "27 \<le> k" and "k \<le> 511"
  shows "ps (Finite (2 powi k)) = Finite 0"
proof -
  have sq: "(2::real) powi k * 2 powi k = 2 powi (2 * k)"
    by (simp flip: power_int_add)
  have a: "rounded (dpow2 (Finite (2 powi k))) = Finite (2 powi (2 * k))"
    using assms by (simp add: dpow2_def sq round64_pow2)
  have b: "rounded (dadd (Finite 1) (Finite (2 powi (2 * k)))) = Finite (2 powi (2 * k))"
    using assms by (simp add: round64_one_plus_pow2)
  have nn: "\<not> (2::real) powi (2 * k) < 0"
    by (simp add: not_less)
  have c: "rounded (dsqrt (Finite (2 powi (2 * k)))) = Finite (2 powi k)"
    using assms nn by (simp add: sqrt_pow2_even round64_pow2)
  have d: "rounded (dmul (Finite 50) (Finite (2 powi k))) = Finite (50 * 2 powi k)"
    using assms by (simp add: round64_fifty_times_pow2)
  have e: "rounded (ddiv (Finite (50 * 2 powi k)) (Finite (2 powi k))) = Finite 50"
    by (simp add: round64_50)
  have f: "rounded (dsub (Finite 50) (Finite 50)) = Finite 0"
    by (simp add: dsub_def round64_0)
  show ?thesis unfolding ps_def a b c d e f ..
qed

lemma round64_overflow: "round64 (2 powi 1024) = PInf"
proof -
  have "round64 (2 powi 1024) =
    (if overflow_bound \<le> \<bar>of_int (2 ^ 52) * 2 powi (1024 - 52)\<bar> then dinf ((2::real) powi 1024 < 0)
     else Finite (of_int (2 ^ 52) * 2 powi (1024 - 52)))"
  proof (rule round64_eq)
    show "(2::real) powi 1024 \<le> \<bar>2 powi 1024\<bar>" by simp
    show "\<bar>(2::real) powi 1024\<bar> < 2 powi (1024 + 1)" by (simp add: power_int_add)
    show "- 1022 \<le> (1024::int)" by simp
    have "(2::real) powi 1024 / 2 powi (1024 - 52) = of_int (2 ^ 52)"
      by (simp add: power_int_diff)
    then show "ties_even ((2::real) powi 1024 / 2 powi (1024 - 52)) = 2 ^ 52"
      by (simp only: ties_even_of_int)
  qed
  moreover have "real_of_int (2 ^ 52) * 2 powi (1024 - 52) = overflow_bound"
    unfolding overflow_bound_def by (simp add: power_int_diff)
  ultimately show ?thesis by (simp add: dinf_def)
qed

lemma ps_overflow: "ps (Finite (2 powi 512)) = Finite 50"
proof -
  have sq: "(2::real) powi 512 * 2 powi 512 = 2 powi 1024"
    by (simp flip: power_int_add)
  have a: "rounded (dpow2 (Finite (2 powi 512))) = PInf"
    by (simp only: dpow2_def dmul.simps sq rounded.simps round64_overflow)
  have d: "rounded (dmul (Finite 50) (Finite (2 powi 512))) = Finite (50 * 2 powi 512)"
    by (simp only: dmul.simps rounded.simps) (rule round64_fifty_times_pow2, simp_all)
  have e: "rounded (ddiv (Finite (50 * 2 powi 512)) PInf) = Finite 0"
    by (simp add: round64_0)
  have f: "rounded (dsub (Finite 50) (Finite 0)) = Finite 50"
    by (simp add: dsub_def round64_50)
  have g: "rounded (dsqrt (rounded (dadd (Finite 1) PInf))) = PInf"
    by simp
  show ?thesis unfolding ps_def a d g e f ..
qed

lemma ps_examples:
  "ps (Finite (2 ^ 27)) = Finite 0" "ps (Finite (2 ^ 28)) = Finite 0"
  "ps (Finite (2 ^ 512)) = Finite 50"
  using ps_large_pow2 [of 27] ps_large_pow2 [of 28] ps_overflow by simp_all

subsection \<open>Errors of a loop\<close>

lemma for_loop_error_kind:
  assumes "for_loop i n body s = Inl e"
    and "\<And>j t e. body j t = Inl e \<Longrightarrow> P e"
  shows "P e"
  using assms
proof (induction i n body s rule: for_loop.induct)
  case (1 i n body s)
  show ?case
  proof (cases "i < n")
    case False
    then show ?thesis using "1.prems"(1) by (simp add: for_loop.simps [of i n])
  next
    case True
    show ?thesis
    proof (cases "body i s")
      case (Inl e')
      then have "e' = e" using True "1.prems"(1) by (simp add: for_loop.simps [of i n])
      then show ?thesis using Inl "1.prems"(2) by blast
    next
      case (Inr s')
      then have "for_loop (Suc i) n body s' = Inl e"
        using True "1.prems"(1) by (simp add: for_loop.simps [of i n])
      then show ?thesis using "1.IH" [OF True Inr] "1.prems"(2) by blast
    qed
  qed
qed

lemma add_vec_body_error: "add_vec_body x_diff y_diff j t = Inl e \<Longrightarrow> e = OutOfBounds"
  by (simp add: add_vec_body_def split: if_splits)

lemma for_loop_step:
  "i < n \<Longrightarrow> body i s = Inr s' \<Longrightarrow> for_loop i n body s = for_loop (Suc i) n body s'"
  by (subst for_loop.simps) simp

lemma for_loop_done: "\<not> i < n \<Longrightarrow> for_loop i n body s = Inr s"
  by (subst for_loop.simps) simp

subsection \<open>The model run on the sampler \<open>low_sampler\<close>\<close>

lemma low_uniform [simp]: "uniform_real low_sampler a b g = (a, Suc g)"
  by (simp add: low_sampler_def)

lemma low_normal [simp]: "normal_draw low_sampler m sd d g = (dadd m (dmul (Finite 2) sd), d, Suc g)"
  by (simp add: low_sampler_def)

lemma low_circular_draw: "circular_draw low_sampler (Finite r) g = ((Finite 0, Finite 0), Suc (Suc g))"
  by (simp add: circular_draw_def pi_c_def Let_def)

lemma low_isotropic_draw: "isotropic_draw low_sampler (Finite z) g = ((Finite 0, Finite 0), Suc (Suc g))"
  by (simp add: isotropic_draw_def pi_c_def dsub_def dtan_def Let_def)

lemma low_gaussian_draw:
  "gaussian_draw low_sampler (Finite sd) gd = ((Finite (2 * sd), Finite 0), (Suc (Suc (fst gd)), snd gd))"
  by (simp add: gaussian_draw_def pi_c_def)

lemma point_at_const:
  assumes "\<And>s. fst (draw s) = v"
  shows "point_at draw s i = v"
  by (simp add: point_at_def assms)

lemma fill_const:
  assumes "\<And>s. fst (draw s) = v"
  shows "fill draw s (zero_position N) = Inr \<lparr>pos_x = replicate N (fst v), pos_y = replicate N (snd v)\<rparr>"
  by (simp add: fill_eq [where n = N] zero_position_def point_at_const [OF assms] map_replicate_const)

lemma low_source_uniform:
  "source_batch low_sampler ''uniform'' (Finite r) seed N = Inr (zero_position N)"
proof -
  have "fill (circular_draw low_sampler (Finite r)) (engine low_sampler seed) (zero_position N)
      = Inr \<lparr>pos_x = replicate N (fst (Finite 0, Finite 0)), pos_y = replicate N (snd (Finite 0, Finite 0))\<rparr>"
    by (rule fill_const) (simp add: low_circular_draw)
  then show ?thesis
    by (simp add: source_batch_def generate_circular_distr_def zero_position_def)
qed

lemma low_source_gaussian:
  "source_batch low_sampler ''gaussian'' (Finite sd) seed N =
     Inr \<lparr>pos_x = replicate N (Finite (2 * sd)), pos_y = replicate N (Finite 0)\<rparr>"
proof -
  have "fill (gaussian_draw low_sampler (Finite sd)) (engine low_sampler seed, normal_fresh low_sampler)
          (zero_position N)
      = Inr \<lparr>pos_x = replicate N (fst (Finite (2 * sd), Finite 0)),
               pos_y = replicate N (snd (Finite (2 * sd), Finite 0))\<rparr>"
    by (rule fill_const) (simp add: low_gaussian_draw)
  then show ?thesis
    by (simp add: source_batch_def generate_gaussian_distr_def)
qed

lemma low_emission:
  "emission_batch low_sampler (Finite z) seed N = Inr (zero_position N)"
proof -
  have "fill (isotropic_draw low_sampler (Finite z)) (engine low_sampler seed) (zero_position N)
      = Inr \<lparr>pos_x = replicate N (fst (Finite 0, Finite 0)), pos_y = replicate N (snd (Finite 0, Finite 0))\<rparr>"
    by (rule fill_const) (simp add: low_isotropic_draw)
  then show ?thesis
    by (simp add: emission_batch_def generate_isotropic_def zero_position_def)
qed

lemma summed_hits_replicate:
  "summed_hits \<lparr>pos_x = replicate N a, pos_y = replicate N b\<rparr> \<lparr>pos_x = replicate N c, pos_y = replicate N d\<rparr> N
     = (if inside_unit_disc (dadd a c) (dadd b d) then N else 0)"
proof -
  have "filter (\<lambda>i. inside_unit_disc (dadd (replicate N a ! i) (replicate N c ! i))
                                           (dadd (replicate N b ! i) (replicate N d ! i))) [0..<N]
      = filter (\<lambda>i. inside_unit_disc (dadd a c) (dadd b d)) [0..<N]"
    by (rule filter_cong) simp_all
  then show ?thesis by (simp add: summed_hits_def)
qed

lemma low_sampler_within: "uniform_within low_sampler"
  by (simp add: uniform_within_def)

subsection \<open>A generator reads nothing but its seed and the size of the batch\<close>

lemma fill_same:
  fixes draw :: "'s \<Rightarrow> (double \<times> double) \<times> 's"
  assumes "length (pos_y p) = length (pos_x p)" and "length (pos_y q) = length (pos_x q)"
    and "length (pos_x q) = length (pos_x p)"
  shows "fill draw s p = fill draw s q"
  using assms by (simp add: fill_eq [where n = "length (pos_x p)"])

lemma fill_prefix:
  fixes draw :: "'s \<Rightarrow> (double \<times> double) \<times> 's"
  assumes "length (pos_y p) = length (pos_x p)" and "k \<le> length (pos_x p)"
  shows "\<exists>a b. fill draw s p = Inr a \<and> fill draw s (zero_position k) = Inr b
    \<and> pos_x b = take k (pos_x a) \<and> pos_y b = take k (pos_y a)"
  using assms
  by (simp add: fill_eq [where n = "length (pos_x p)"] fill_eq [where n = k] zero_position_def
      take_map)

subsection \<open>The loop of \<open>main\<close>\<close>

lemma geom_eff_point_total:
  assumes "ty = ''uniform'' \<or> ty = ''gaussian''" and "0 \<le> sint n"
  shows "\<exists>v. geom_eff_point S z src_size n seed ty = Inr v"
proof -
  obtain src where src: "source_batch S ty src_size seed (nat (sint n)) = Inr src"
    using source_batch_ok by blast
  obtain em where em: "emission_batch S z (seed + 1) (nat (sint n)) = Inr em"
    using emission_batch_ok by blast
  from assms src em show ?thesis by (simp add: geom_eff_point_eq)
qed

lemma take_Suc_update:
  "j < length xs \<Longrightarrow> take (Suc j) (xs[j := v]) = take j xs @ [v]"
  by (simp add: take_Suc_conv_app_nth)

lemma main_body_circular:
  assumes "detector_type inp = ''circular''"
    and "i < length z" and "i < length (efficiencies st)" and "i < length (rel_ers st)"
    and "run_call S (outer_call inp seed (z ! i)) = Inr e"
  shows "main_body S inp seed z i st =
    Inr (st\<lparr>calls := calls st @ [outer_call inp seed (z ! i)],
            efficiencies := (efficiencies st)[i := e],
            rel_ers := (rel_ers st)[i := rel_er (n_perpoint inp) e]\<rparr>)"
  using assms
  by (simp add: main_body_def call_geom_eff_point_def run_call_def outer_call_def)

lemma main_body_annular:
  assumes "detector_type inp = ''annular''"
    and "i < length z" and "i < length (efficiencies st)" and "i < length (rel_ers st)"
    and "i < length (efficiencies_outer st)" and "i < length (efficiencies_inner st)"
    and "i < length (rel_ers_outer st)" and "i < length (rel_ers_inner st)"
    and "run_call S (outer_call inp seed (z ! i)) = Inr e_outer"
    and "run_call S (inner_call inp seed (z ! i)) = Inr e_inner"
  shows "main_body S inp seed z i st =
    Inr (st\<lparr>calls := calls st @ [outer_call inp seed (z ! i), inner_call inp seed (z ! i)],
            efficiencies_outer := (efficiencies_outer st)[i := e_outer],
            efficiencies_inner := (efficiencies_inner st)[i := e_inner],
            efficiencies := (efficiencies st)[i := dsub e_outer e_inner],
            rel_ers_outer := (rel_ers_outer st)[i := rel_er (n_perpoint inp) e_outer],
            rel_ers_inner := (rel_ers_inner st)[i := rel_er (n_perpoint inp) e_inner],
            rel_ers := (rel_ers st)[i := quadrature (rel_er (n_perpoint inp) e_outer)
                                                    (rel_er (n_perpoint inp) e_inner)]\<rparr>)"
  using assms
  by (simp add: main_body_def call_geom_eff_point_def run_call_def outer_call_def inner_call_def
      quadrature_def Let_def)

lemma run_call_total:
  assumes "source_type inp = ''uniform'' \<or> source_type inp = ''gaussian''"
    and "0 \<le> sint (n_perpoint inp)"
  shows "\<exists>v. run_call S (outer_call inp seed zi) = Inr v"
    and "\<exists>v. run_call S (inner_call inp seed zi) = Inr v"
  using assms by (simp_all add: run_call_def outer_call_def inner_call_def geom_eff_point_total)

lemma loop_circular:
  assumes det: "detector_type inp = ''circular''"
    and ty: "source_type inp = ''uniform'' \<or> source_type inp = ''gaussian''"
    and n: "0 \<le> sint (n_perpoint inp)"
    and z: "length z = N"
  shows "\<exists>st. for_loop 0 N (main_body S inp seed z) (initial_state N) = Inr st
    \<and> calls st = map (outer_call inp seed) z
    \<and> length (efficiencies st) = N
    \<and> map Inr (efficiencies st) = map (\<lambda>zi. run_call S (outer_call inp seed zi)) z
    \<and> rel_ers st = map (rel_er (n_perpoint inp)) (efficiencies st)
    \<and> efficiencies_outer st = zeros N \<and> efficiencies_inner st = zeros N
    \<and> rel_ers_outer st = zeros N \<and> rel_ers_inner st = zeros N"
proof -
  let ?I = "\<lambda>j (st :: sweep_state). length (efficiencies st) = N \<and> length (rel_ers st) = N
    \<and> calls st = map (outer_call inp seed) (take j z)
    \<and> map Inr (take j (efficiencies st)) = map (\<lambda>zi. run_call S (outer_call inp seed zi)) (take j z)
    \<and> take j (rel_ers st) = map (rel_er (n_perpoint inp)) (take j (efficiencies st))
    \<and> efficiencies_outer st = zeros N \<and> efficiencies_inner st = zeros N
    \<and> rel_ers_outer st = zeros N \<and> rel_ers_inner st = zeros N"
  have "\<exists>st. for_loop 0 N (main_body S inp seed z) (initial_state N) = Inr st \<and> ?I N st"
  proof (rule for_loop_rule [where I = ?I])
    show "?I 0 (initial_state N)" by (simp add: initial_state_def zeros_def)
    show "0 \<le> N" by simp
    fix j st assume "0 \<le> j" and j: "j < N" and I: "?I j st"
    obtain e where e: "run_call S (outer_call inp seed (z ! j)) = Inr e"
      using run_call_total(1) [OF ty n] by blast
    let ?st = "st\<lparr>calls := calls st @ [outer_call inp seed (z ! j)],
            efficiencies := (efficiencies st)[j := e],
            rel_ers := (rel_ers st)[j := rel_er (n_perpoint inp) e]\<rparr>"
    have b: "main_body S inp seed z j st = Inr ?st"
      using det _ _ _ e by (rule main_body_circular) (use j I z in simp_all)
    have "?I (Suc j) ?st"
      using I j z e by (simp add: take_Suc_update take_Suc_conv_app_nth)
    with b show "\<exists>t'. main_body S inp seed z j st = Inr t' \<and> ?I (Suc j) t'" by blast
  qed
  then show ?thesis using z by auto
qed

lemma loop_annular:
  assumes det: "detector_type inp = ''annular''"
    and ty: "source_type inp = ''uniform'' \<or> source_type inp = ''gaussian''"
    and n: "0 \<le> sint (n_perpoint inp)"
    and z: "length z = N"
  shows "\<exists>st. for_loop 0 N (main_body S inp seed z) (initial_state N) = Inr st
    \<and> calls st = concat (map (\<lambda>zi. [outer_call inp seed zi, inner_call inp seed zi]) z)
    \<and> length (efficiencies_outer st) = N \<and> length (efficiencies_inner st) = N
    \<and> map Inr (efficiencies_outer st) = map (\<lambda>zi. run_call S (outer_call inp seed zi)) z
    \<and> map Inr (efficiencies_inner st) = map (\<lambda>zi. run_call S (inner_call inp seed zi)) z
    \<and> efficiencies st = map2 dsub (efficiencies_outer st) (efficiencies_inner st)
    \<and> rel_ers_outer st = map (rel_er (n_perpoint inp)) (efficiencies_outer st)
    \<and> rel_ers_inner st = map (rel_er (n_perpoint inp)) (efficiencies_inner st)
    \<and> rel_ers st = map2 quadrature (rel_ers_outer st) (rel_ers_inner st)"
proof -
  let ?I = "\<lambda>j (st :: sweep_state). length (efficiencies st) = N \<and> length (rel_ers st) = N
    \<and> length (efficiencies_outer st) = N \<and> length (efficiencies_inner st) = N
    \<and> length (rel_ers_outer st) = N \<and> length (rel_ers_inner st) = N
    \<and> calls st = concat (map (\<lambda>zi. [outer_call inp seed zi, inner_call inp seed zi]) (take j z))
    \<and> map Inr (take j (efficiencies_outer st)) = map (\<lambda>zi. run_call S (outer_call inp seed zi)) (take j z)
    \<and> map Inr (take j (efficiencies_inner st)) = map (\<lambda>zi. run_call S (inner_call inp seed zi)) (take j z)
    \<and> take j (efficiencies st) = map2 dsub (take j (efficiencies_outer st)) (take j (efficiencies_inner st))
    \<and> take j (rel_ers_outer st) = map (rel_er (n_perpoint inp)) (take j (efficiencies_outer st))
    \<and> take j (rel_ers_inner st) = map (rel_er (n_perpoint inp)) (take j (efficiencies_inner st))
    \<and> take j (rel_ers st) = map2 quadrature (take j (rel_ers_outer st)) (take j (rel_ers_inner st))"
  have "\<exists>st. for_loop 0 N (main_body S inp seed z) (initial_state N) = Inr st \<and> ?I N st"
  proof (rule for_loop_rule [where I = ?I])
    show "?I 0 (initial_state N)" by (simp add: initial_state_def zeros_def)
    show "0 \<le> N" by simp
    fix j st assume "0 \<le> j" and j: "j < N" and I: "?I j st"
    obtain eo where eo: "run_call S (outer_call inp seed (z ! j)) = Inr eo"
      using run_call_total(1) [OF ty n] by blast
    obtain ei where ei: "run_call S (inner_call inp seed (z ! j)) = Inr ei"
      using run_call_total(2) [OF ty n] by blast
    let ?st = "st\<lparr>calls := calls st @ [outer_call inp seed (z ! j), inner_call inp seed (z ! j)],
            efficiencies_outer := (efficiencies_outer st)[j := eo],
            efficiencies_inner := (efficiencies_inner st)[j := ei],
            efficiencies := (efficiencies st)[j := dsub eo ei],
            rel_ers_outer := (rel_ers_outer st)[j := rel_er (n_perpoint inp) eo],
            rel_ers_inner := (rel_ers_inner st)[j := rel_er (n_perpoint inp) ei],
            rel_ers := (rel_ers st)[j := quadrature (rel_er (n_perpoint inp) eo)
                                                    (rel_er (n_perpoint inp) ei)]\<rparr>"
    have b: "main_body S inp seed z j st = Inr ?st"
      using det _ _ _ _ _ _ _ eo ei by (rule main_body_annular) (use j I z in simp_all)
    have "?I (Suc j) ?st"
      using I j z eo ei by (simp add: take_Suc_update take_Suc_conv_app_nth)
    with b show "\<exists>t'. main_body S inp seed z j st = Inr t' \<and> ?I (Suc j) t'" by blast
  qed
  then show ?thesis using z by auto
qed


lemma linspace_length:
  assumes "0 \<le> sint nr_points"
  shows "\<exists>z. linspace minv maxv nr_points = Inr z \<and> length z = nat (sint nr_points)"
  by (simp add: linspace_eq [OF assms])

lemma sweep_unfold:
  assumes "linspace (z_min inp) (z_max inp) (n_points inp) = Inr z"
  shows "sweep S inp seed =
    (case for_loop 0 (nat (sint (n_points inp))) (main_body S inp seed z)
            (initial_state (nat (sint (n_points inp)))) of
       Inl e \<Rightarrow> Inl e | Inr st \<Rightarrow> Inr (z, st))"
  by (simp add: sweep_def assms initial_state_def zeros_def Let_def)

lemma sint_minus_one:
  fixes n :: c_int
  assumes "1 \<le> sint n"
  shows "sint (n - 1) = sint n - 1"
proof -
  have "sint n < 2 ^ 31" using sint_lt [of n] by simp
  then have "signed_take_bit 31 (sint n - 1) = sint n - 1"
    using assms by (simp add: signed_take_bit_int_eq_self)
  then show ?thesis by (simp add: sint_word_ariths)
qed

lemma linspace_finite:
  assumes n: "2 \<le> sint nr_points"
  shows "linspace (Finite a) (Finite b) nr_points =
    Inr (map (\<lambda>i. Finite (a + (b - a) / real (nat (sint nr_points) - 1) * real i))
          [0..<nat (sint nr_points)])"
proof -
  have n0: "0 \<le> sint nr_points" and n1: "1 \<le> sint nr_points" using n by simp_all
  define N where "N = nat (sint nr_points)"
  have N: "2 \<le> N" using n by (simp add: N_def)
  have "sint (nr_points - 1) = int (N - 1)"
    using n1 N by (simp add: sint_minus_one N_def)
  then have d: "d_of_int (sint (nr_points - 1)) = Finite (real (N - 1))"
    unfolding d_of_int_def by (simp del: of_int_sint)
  have nz: "real (N - 1) \<noteq> 0" using N by simp
  have "dadd (Finite a) (dmul (ddiv (dsub (Finite b) (Finite a)) (dmul (Finite 1) (Finite (real (N - 1)))))
            (d_of_int (int i)))
      = Finite (a + (b - a) / real (N - 1) * real i)" for i
    using nz by (simp add: dsub_def d_of_int_def)
  then show ?thesis
    unfolding linspace_eq [OF n0] d N_def [symmetric] by simp
qed

lemma sweep_circular:
  assumes det: "detector_type inp = ''circular''"
    and ty: "source_type inp = ''uniform'' \<or> source_type inp = ''gaussian''"
    and n: "0 \<le> sint (n_perpoint inp)"
    and np: "0 \<le> sint (n_points inp)"
  shows "\<exists>z st. linspace (z_min inp) (z_max inp) (n_points inp) = Inr z
    \<and> length z = nat (sint (n_points inp))
    \<and> sweep S inp seed = Inr (z, st)
    \<and> calls st = map (outer_call inp seed) z
    \<and> length (efficiencies st) = nat (sint (n_points inp))
    \<and> map Inr (efficiencies st) = map (\<lambda>zi. run_call S (outer_call inp seed zi)) z
    \<and> rel_ers st = map (rel_er (n_perpoint inp)) (efficiencies st)
    \<and> efficiencies_outer st = zeros (nat (sint (n_points inp)))
    \<and> efficiencies_inner st = zeros (nat (sint (n_points inp)))
    \<and> rel_ers_outer st = zeros (nat (sint (n_points inp)))
    \<and> rel_ers_inner st = zeros (nat (sint (n_points inp)))"
proof -
  obtain z where z: "linspace (z_min inp) (z_max inp) (n_points inp) = Inr z"
      "length z = nat (sint (n_points inp))"
    using linspace_length [OF np] by blast
  from loop_circular [OF det ty n z(2), of S seed] obtain st where
    st: "for_loop 0 (nat (sint (n_points inp))) (main_body S inp seed z)
            (initial_state (nat (sint (n_points inp)))) = Inr st"
    and rest: "calls st = map (outer_call inp seed) z"
      "length (efficiencies st) = nat (sint (n_points inp))"
      "map Inr (efficiencies st) = map (\<lambda>zi. run_call S (outer_call inp seed zi)) z"
      "rel_ers st = map (rel_er (n_perpoint inp)) (efficiencies st)"
      "efficiencies_outer st = zeros (nat (sint (n_points inp)))"
      "efficiencies_inner st = zeros (nat (sint (n_points inp)))"
      "rel_ers_outer st = zeros (nat (sint (n_points inp)))"
      "rel_ers_inner st = zeros (nat (sint (n_points inp)))"
    by blast
  have "sweep S inp seed = Inr (z, st)"
    by (simp add: sweep_unfold [OF z(1)] st)
  with z rest show ?thesis by blast
qed

lemma sweep_annular:
  assumes det: "detector_type inp = ''annular''"
    and ty: "source_type inp = ''uniform'' \<or> source_type inp = ''gaussian''"
    and n: "0 \<le> sint (n_perpoint inp)"
    and np: "0 \<le> sint (n_points inp)"
  shows "\<exists>z st. linspace (z_min inp) (z_max inp) (n_points inp) = Inr z
    \<and> length z = nat (sint (n_points inp))
    \<and> sweep S inp seed = Inr (z, st)
    \<and> calls st = concat (map (\<lambda>zi. [outer_call inp seed zi, inner_call inp seed zi]) z)
    \<and> length (efficiencies_outer st) = nat (sint (n_points inp))
    \<and> length (efficiencies_inner st) = nat (sint (n_points inp))
    \<and> map Inr (efficiencies_outer st) = map (\<lambda>zi. run_call S (outer_call inp seed zi)) z
    \<and> map Inr (efficiencies_inner st) = map (\<lambda>zi. run_call S (inner_call inp seed zi)) z
    \<and> efficiencies st = map2 dsub (efficiencies_outer st) (efficiencies_inner st)
    \<and> rel_ers_outer st = map (rel_er (n_perpoint inp)) (efficiencies_outer st)
    \<and> rel_ers_inner st = map (rel_er (n_perpoint inp)) (efficiencies_inner st)
    \<and> rel_ers st = map2 quadrature (rel_ers_outer st) (rel_ers_inner st)"
proof -
  obtain z where z: "linspace (z_min inp) (z_max inp) (n_points inp) = Inr z"
      "length z = nat (sint (n_points inp))"
    using linspace_length [OF np] by blast
  from loop_annular [OF det ty n z(2), of S seed] obtain st where
    st: "for_loop 0 (nat (sint (n_points inp))) (main_body S inp seed z)
            (initial_state (nat (sint (n_points inp)))) = Inr st"
    and rest: "calls st = concat (map (\<lambda>zi. [outer_call inp seed zi, inner_call inp seed zi]) z)"
      "length (efficiencies_outer st) = nat (sint (n_points inp))"
      "length (efficiencies_inner st) = nat (sint (n_points inp))"
      "map Inr (efficiencies_outer st) = map (\<lambda>zi. run_call S (outer_call inp seed zi)) z"
      "map Inr (efficiencies_inner st) = map (\<lambda>zi. run_call S (inner_call inp seed zi)) z"
      "efficiencies st = map2 dsub (efficiencies_outer st) (efficiencies_inner st)"
      "rel_ers_outer st = map (rel_er (n_perpoint inp)) (efficiencies_outer st)"
      "rel_ers_inner st = map (rel_er (n_perpoint inp)) (efficiencies_inner st)"
      "rel_ers st = map2 quadrature (rel_ers_outer st) (rel_ers_inner st)"
    by blast
  have "sweep S inp seed = Inr (z, st)"
    by (simp add: sweep_unfold [OF z(1)] st)
  with z rest show ?thesis by blast
qed

lemma seeds_of_pairs:
  "map call_seed (concat (map (\<lambda>zi. [outer_call inp seed zi, inner_call inp seed zi]) z))
     = replicate (2 * length z) seed"
  by (induction z) (simp_all add: outer_call_def inner_call_def)

lemma seeds_of_singles:
  "map call_seed (map (outer_call inp seed) z) = replicate (length z) seed"
  by (induction z) (simp_all add: outer_call_def)

lemma map_Inr_eq: "map Inr xs = map Inr ys \<Longrightarrow> xs = ys"
  by (simp add: inj_map_eq_map)

lemma nth_map_Inr:
  assumes "map Inr xs = map f zs" and "i < length zs"
  shows "Inr (xs ! i) = f (zs ! i)"
proof -
  have "length xs = length zs" using assms(1) by (metis length_map)
  then have "map Inr xs ! i = Inr (xs ! i)" using assms(2) by simp
  moreover have "map f zs ! i = f (zs ! i)" using assms(2) by simp
  moreover have "map Inr xs ! i = map f zs ! i" by (simp only: assms(1))
  ultimately show ?thesis by metis
qed

lemma sweep_succeeds:
  assumes det: "detector_type inp = ''circular'' \<or> detector_type inp = ''annular''"
    and ty: "source_type inp = ''uniform'' \<or> source_type inp = ''gaussian''"
    and n: "0 \<le> sint (n_perpoint inp)"
    and np: "0 \<le> sint (n_points inp)"
  shows "\<exists>z st. linspace (z_min inp) (z_max inp) (n_points inp) = Inr z
    \<and> sweep S inp seed = Inr (z, st)"
proof (cases "detector_type inp = ''circular''")
  case True
  from sweep_circular [OF True ty n np, of S seed] show ?thesis by blast
next
  case False
  then have "detector_type inp = ''annular''" using det by simp
  from sweep_annular [OF this ty n np, of S seed] show ?thesis by blast
qed

lemma sweep_same_distance:
  assumes det: "detector_type inp = ''circular'' \<or> detector_type inp = ''annular''"
    and ty: "source_type inp = ''uniform'' \<or> source_type inp = ''gaussian''"
    and n: "0 \<le> sint (n_perpoint inp)"
    and np: "0 \<le> sint (n_points inp)"
  shows "\<exists>z st. linspace (z_min inp) (z_max inp) (n_points inp) = Inr z
    \<and> sweep S inp seed = Inr (z, st)
    \<and> (\<forall>i<length z. \<forall>j<length z. z ! i = z ! j \<longrightarrow>
          efficiencies st ! i = efficiencies st ! j \<and> rel_ers st ! i = rel_ers st ! j)"
proof (cases "detector_type inp = ''circular''")
  case True
  from sweep_circular [OF True ty n np, of S seed] obtain z st where
    l: "linspace (z_min inp) (z_max inp) (n_points inp) = Inr z"
    and len: "length z = nat (sint (n_points inp))" "length (efficiencies st) = nat (sint (n_points inp))"
    and sw: "sweep S inp seed = Inr (z, st)"
    and e: "map Inr (efficiencies st) = map (\<lambda>zi. run_call S (outer_call inp seed zi)) z"
    and r: "rel_ers st = map (rel_er (n_perpoint inp)) (efficiencies st)"
    by blast
  have "efficiencies st ! i = efficiencies st ! j \<and> rel_ers st ! i = rel_ers st ! j"
    if "i < length z" "j < length z" "z ! i = z ! j" for i j
  proof -
    have "(Inr (efficiencies st ! i) :: error + double) = Inr (efficiencies st ! j)"
      using nth_map_Inr [OF e that(1)] nth_map_Inr [OF e that(2)] that(3) by simp
    then have "efficiencies st ! i = efficiencies st ! j" by simp
    then show ?thesis using that(1,2) len by (simp add: r)
  qed
  with l sw show ?thesis by blast
next
  case False
  then have a: "detector_type inp = ''annular''" using det by simp
  from sweep_annular [OF a ty n np, of S seed] obtain z st where
    l: "linspace (z_min inp) (z_max inp) (n_points inp) = Inr z"
    and len: "length z = nat (sint (n_points inp))"
      "length (efficiencies_outer st) = nat (sint (n_points inp))"
      "length (efficiencies_inner st) = nat (sint (n_points inp))"
    and sw: "sweep S inp seed = Inr (z, st)"
    and eo: "map Inr (efficiencies_outer st) = map (\<lambda>zi. run_call S (outer_call inp seed zi)) z"
    and ei: "map Inr (efficiencies_inner st) = map (\<lambda>zi. run_call S (inner_call inp seed zi)) z"
    and e: "efficiencies st = map2 dsub (efficiencies_outer st) (efficiencies_inner st)"
    and r: "rel_ers_outer st = map (rel_er (n_perpoint inp)) (efficiencies_outer st)"
      "rel_ers_inner st = map (rel_er (n_perpoint inp)) (efficiencies_inner st)"
      "rel_ers st = map2 quadrature (rel_ers_outer st) (rel_ers_inner st)"
    by blast
  have "efficiencies st ! i = efficiencies st ! j \<and> rel_ers st ! i = rel_ers st ! j"
    if "i < length z" "j < length z" "z ! i = z ! j" for i j
  proof -
    have "(Inr (efficiencies_outer st ! i) :: error + double) = Inr (efficiencies_outer st ! j)"
      using nth_map_Inr [OF eo that(1)] nth_map_Inr [OF eo that(2)] that(3) by simp
    then have o: "efficiencies_outer st ! i = efficiencies_outer st ! j" by simp
    have "(Inr (efficiencies_inner st ! i) :: error + double) = Inr (efficiencies_inner st ! j)"
      using nth_map_Inr [OF ei that(1)] nth_map_Inr [OF ei that(2)] that(3) by simp
    then have i: "efficiencies_inner st ! i = efficiencies_inner st ! j" by simp
    show ?thesis using that(1,2) len o i by (simp add: e r)
  qed
  with l sw show ?thesis by blast
qed

subsection \<open>More runs on \<open>low_sampler\<close>\<close>

lemma low_geom_eff_uniform:
  assumes "1 \<le> sint n"
  shows "geom_eff_point low_sampler (Finite z) (Finite r) n seed ''uniform'' = Inr (Finite 50)"
proof -
  define N where "N = nat (sint n)"
  have N: "N \<noteq> 0" using assms by (simp add: N_def)
  have "geom_eff_point low_sampler (Finite z) (Finite r) n seed ''uniform'' =
        Inr (Finite (50 * real (summed_hits (zero_position N) (zero_position N) N) / real N))"
    unfolding N_def
    by (rule geom_eff_point_finite) (simp_all add: assms low_source_uniform low_emission)
  moreover have "summed_hits (zero_position N) (zero_position N) N = N"
    by (simp add: zero_position_def summed_hits_replicate inside_unit_disc_def)
  ultimately show ?thesis using N by simp
qed

lemma rel_er_fifty: "rel_er 1 (Finite 50) = Finite 100"
  by (simp add: rel_er_def d_of_int_def)

lemma rel_er_zero:
  fixes n :: c_int
  shows "rel_er n (Finite 0) = PInf"
  by (simp add: rel_er_def d_of_int_def dinf_def del: of_int_sint)

lemma low_isotropic_draw_nan: "isotropic_draw low_sampler NaN g = ((NaN, NaN), Suc (Suc g))"
  by (simp add: isotropic_draw_def pi_c_def dsub_def dtan_def Let_def)

lemma low_emission_nan:
  "emission_batch low_sampler NaN seed N = Inr \<lparr>pos_x = replicate N NaN, pos_y = replicate N NaN\<rparr>"
proof -
  have "fill (isotropic_draw low_sampler NaN) (engine low_sampler seed) (zero_position N)
      = Inr \<lparr>pos_x = replicate N (fst (NaN, NaN)), pos_y = replicate N (snd (NaN, NaN))\<rparr>"
    by (rule fill_const) (simp add: low_isotropic_draw_nan)
  then show ?thesis
    by (simp add: emission_batch_def generate_isotropic_def)
qed

lemma low_geom_eff_nan:
  "geom_eff_point low_sampler NaN (Finite r) 1 seed ''uniform'' = Inr (Finite 0)"
proof -
  have "geom_eff_point low_sampler NaN (Finite r) 1 seed ''uniform'' =
        Inr (Finite (50 * real (summed_hits (zero_position (nat (sint (1 :: c_int))))
            \<lparr>pos_x = replicate (nat (sint (1 :: c_int))) NaN, pos_y = replicate (nat (sint (1 :: c_int))) NaN\<rparr>
            (nat (sint (1 :: c_int)))) / real (nat (sint (1 :: c_int)))))"
    by (rule geom_eff_point_finite) (simp_all add: low_source_uniform low_emission_nan)
  then show ?thesis
    by (simp add: zero_position_def summed_hits_def inside_unit_disc_def)
qed


section \<open>The claims of the specification\<close>

text \<open>
  C1. For every distance \<open>z\<close>, source size, recognised source type, sample count
  \<open>N \<ge> 1\<close> and seed \<open>s\<close>, one call of \<open>geom_eff_point\<close> generates the \<open>N\<close> source
  points from the seed \<open>s\<close> and the \<open>N\<close> emission offsets from the seed \<open>s + 1\<close>, adds
  the two batches elementwise, and returns \<open>50 * hits / N\<close>, where \<open>hits\<close> is the number
  of summed points with \<open>x\<^sup>2 + y\<^sup>2 \<le> 1\<close>.
\<close>

theorem geom_eff_point_evaluation:
  assumes "ty = ''uniform'' \<or> ty = ''gaussian''" and "1 \<le> sint n"
  shows "\<exists>src em.
      source_batch S ty src_size seed (nat (sint n)) = Inr src
    \<and> emission_batch S z (seed + 1) (nat (sint n)) = Inr em
    \<and> geom_eff_point S z src_size n seed ty =
        Inr (Finite (50 * real (summed_hits src em (nat (sint n))) / real (nat (sint n))))"
proof -
  obtain src where src: "source_batch S ty src_size seed (nat (sint n)) = Inr src"
    using source_batch_ok by blast
  obtain em where em: "emission_batch S z (seed + 1) (nat (sint n)) = Inr em"
    using emission_batch_ok by blast
  from assms src em have "geom_eff_point S z src_size n seed ty =
        Inr (Finite (50 * real (summed_hits src em (nat (sint n))) / real (nat (sint n))))"
    by (rule geom_eff_point_finite)
  with src em show ?thesis by blast
qed

theorem geom_eff_point_evaluation_witness:
  "(''uniform'' = ''uniform'' \<or> ''uniform'' = ''gaussian'') \<and> 1 \<le> sint (2 :: c_int)
   \<and> geom_eff_point low_sampler (Finite 3) (Finite 1) 2 7 ''uniform'' = Inr (Finite 50)"
  using geom_eff_point_evaluation [of "''uniform''" 2 low_sampler "Finite 1" 7 "Finite 3"]
  by (simp add: low_source_uniform low_emission zero_position_def summed_hits_replicate
      inside_unit_disc_def)

text \<open>
  C2, as the code has it. The loop of \<open>main\<close> passes its variable \<open>seed\<close> by value and
  never assigns it; the \<open>seed++\<close> of \<open>geom_eff_point\<close> acts on the copy. So every call
  of the estimator in a sweep receives the same seed, the initial one: one call for each
  distance with a circular detector, two with an annular one. The result of the sweep is
  a function of the inputs and the initial seed.
\<close>

theorem sweep_seed_constant:
  assumes "detector_type inp = ''circular'' \<or> detector_type inp = ''annular''"
    and "source_type inp = ''uniform'' \<or> source_type inp = ''gaussian''"
    and "0 \<le> sint (n_perpoint inp)" and "0 \<le> sint (n_points inp)"
  shows "\<exists>z st. sweep S inp seed = Inr (z, st)
    \<and> map call_seed (calls st) = replicate (length (calls st)) seed
    \<and> length (calls st) =
        (if detector_type inp = ''circular'' then nat (sint (n_points inp))
         else 2 * nat (sint (n_points inp)))"
proof (cases "detector_type inp = ''circular''")
  case True
  from sweep_circular [OF True assms(2-4), of S seed] obtain z st where
    z: "length z = nat (sint (n_points inp))" and sw: "sweep S inp seed = Inr (z, st)"
    and c: "calls st = map (outer_call inp seed) z"
    by blast
  have l: "length (calls st) = nat (sint (n_points inp))" by (simp add: c z)
  have "map call_seed (calls st) = replicate (length z) seed"
    unfolding c by (rule seeds_of_singles)
  then have "map call_seed (calls st) = replicate (length (calls st)) seed"
    by (simp only: l z)
  with sw l True show ?thesis by simp
next
  case False
  then have a: "detector_type inp = ''annular''" using assms(1) by simp
  from sweep_annular [OF a assms(2-4), of S seed] obtain z st where
    z: "length z = nat (sint (n_points inp))" and sw: "sweep S inp seed = Inr (z, st)"
    and c: "calls st = concat (map (\<lambda>zi. [outer_call inp seed zi, inner_call inp seed zi]) z)"
    by blast
  have s: "map call_seed (calls st) = replicate (2 * length z) seed"
    unfolding c by (rule seeds_of_pairs)
  have "length (map call_seed (calls st)) = 2 * length z"
    by (simp only: s length_replicate)
  then have l: "length (calls st) = 2 * nat (sint (n_points inp))" by (simp add: z)
  have "map call_seed (calls st) = replicate (length (calls st)) seed"
    using s by (simp only: l z)
  with sw l False show ?thesis by simp
qed

theorem sweep_seed_constant_witness:
  "(''circular'' = ''circular'' \<or> ''circular'' = ''annular'')
   \<and> (''uniform'' = ''uniform'' \<or> ''uniform'' = ''gaussian'')
   \<and> 0 \<le> sint (1 :: c_int) \<and> 0 \<le> sint (2 :: c_int)
   \<and> (\<exists>z st. sweep low_sampler
          \<lparr>source_type = ''uniform'', detector_type = ''circular'', z_min = Finite 0,
           z_max = Finite 1, n_points = 2, source = Finite 0, n_perpoint = 1,
           det_fraction = Finite 1\<rparr> 5 = Inr (z, st)
        \<and> map call_seed (calls st) = [5, 5])"
  using sweep_seed_constant [of
      "\<lparr>source_type = ''uniform'', detector_type = ''circular'', z_min = Finite 0,
           z_max = Finite 1, n_points = 2, source = Finite 0, n_perpoint = 1,
           det_fraction = Finite 1\<rparr>" low_sampler 5]
  by (auto simp: numeral_2_eq_2)

text \<open>
  C2 as the specification states it fails for the sweep of two distances: both calls of
  the estimator receive the seed of line 169.
\<close>

theorem seed_not_advanced:
  "seeds_passed (main low_sampler
      \<lparr>source_type = ''uniform'', detector_type = ''circular'', z_min = Finite 0,
       z_max = Finite 1, n_points = 2, source = Finite 0, n_perpoint = 1,
       det_fraction = Finite 1\<rparr>) = [15763027, 15763027]"
proof -
  let ?inp = "\<lparr>source_type = ''uniform'', detector_type = ''circular'', z_min = Finite 0,
       z_max = Finite 1, n_points = 2, source = Finite 0, n_perpoint = 1,
       det_fraction = Finite 1\<rparr>"
  have "\<exists>z st. length z = nat (sint (n_points ?inp))
     \<and> sweep low_sampler ?inp 15763027 = Inr (z, st)
     \<and> calls st = map (outer_call ?inp 15763027) z"
    using sweep_circular [of ?inp low_sampler 15763027] by simp blast
  then obtain z st where z: "length z = 2"
    and sw: "sweep low_sampler ?inp 15763027 = Inr (z, st)"
    and c: "calls st = map (outer_call ?inp 15763027) z"
    by auto
  have "map call_seed (calls st) = replicate (length z) 15763027"
    unfolding c by (rule seeds_of_singles)
  then have "map call_seed (calls st) = [15763027, 15763027]"
    by (simp add: z numeral_2_eq_2)
  then show ?thesis by (simp add: seeds_passed_def main_def sw)
qed

text \<open>
  C3, as the code has it. Neither \<open>main\<close> nor \<open>linspace\<close> tests \<open>n_points\<close> against 2.
  For every \<open>n_points \<ge> 0\<close>, recognised types and a sample count that is not negative,
  the run returns with exactly \<open>n_points\<close> distances: no configuration error is raised
  for \<open>n_points\<close> 0 or 1. The distance of index \<open>i\<close> is \<open>z_min + delta * i\<close> as line 101
  computes it, with \<open>delta = (z_max - z_min) / (1.0 * (n_points - 1))\<close> of line 98. For
  \<open>n_points \<ge> 2\<close>, a finite \<open>z_min\<close> and a finite \<open>delta\<close> the first distance is
  \<open>z_min\<close>. That the last distance is \<open>z_max\<close> holds up to rounding only and is not
  stated.
\<close>

theorem sweep_distances:
  assumes "detector_type inp = ''circular'' \<or> detector_type inp = ''annular''"
    and "source_type inp = ''uniform'' \<or> source_type inp = ''gaussian''"
    and "0 \<le> sint (n_perpoint inp)"
    and "0 \<le> sint (n_points inp)"
  shows "\<exists>z st. main S inp = Inr (z, st)
    \<and> length z = nat (sint (n_points inp))
    \<and> z = map (\<lambda>i. dadd (z_min inp) (dmul (spacing inp) (d_of_int (int i))))
              [0..<nat (sint (n_points inp))]
    \<and> (2 \<le> sint (n_points inp) \<and> z_min inp = Finite a \<and> spacing inp = Finite d \<longrightarrow>
          z ! 0 = Finite a)"
proof -
  define N where "N = nat (sint (n_points inp))"
  from sweep_succeeds [OF assms, of S 15763027] obtain z st where
    l: "linspace (z_min inp) (z_max inp) (n_points inp) = Inr z"
    and sw: "sweep S inp 15763027 = Inr (z, st)"
    by blast
  have m: "main S inp = Inr (z, st)"
    using assms(1,2) sw by (auto simp: main_def)
  have z: "z = map (\<lambda>i. dadd (z_min inp) (dmul (spacing inp) (d_of_int (int i)))) [0..<N]"
    using l unfolding linspace_eq [OF assms(4)] spacing_def N_def by simp
  have len: "length z = N" by (subst z) simp
  have "z ! 0 = Finite a"
    if "2 \<le> sint (n_points inp) \<and> z_min inp = Finite a \<and> spacing inp = Finite d"
  proof -
    have "0 < N" using that by (simp add: N_def)
    then have "z ! 0 = dadd (z_min inp) (dmul (spacing inp) (d_of_int (int 0)))"
      by (subst z) simp
    then show ?thesis using that by (simp add: d_of_int_def)
  qed
  then show ?thesis using m len z unfolding N_def by blast
qed

theorem sweep_distances_witness:
  "(''circular'' = ''circular'' \<or> ''circular'' = ''annular'')
   \<and> (''uniform'' = ''uniform'' \<or> ''uniform'' = ''gaussian'')
   \<and> 0 \<le> sint (1 :: c_int) \<and> 2 \<le> sint (3 :: c_int)
   \<and> spacing \<lparr>source_type = ''uniform'', detector_type = ''circular'', z_min = Finite 0,
           z_max = Finite 1, n_points = 3, source = Finite 0, n_perpoint = 1,
           det_fraction = Finite 1\<rparr> = Finite (1 / 2)
   \<and> (\<exists>st. main low_sampler
          \<lparr>source_type = ''uniform'', detector_type = ''circular'', z_min = Finite 0,
           z_max = Finite 1, n_points = 3, source = Finite 0, n_perpoint = 1,
           det_fraction = Finite 1\<rparr> = Inr ([Finite 0, Finite (1 / 2), Finite 1], st))"
proof -
  let ?inp = "\<lparr>source_type = ''uniform'', detector_type = ''circular'', z_min = Finite 0,
           z_max = Finite 1, n_points = 3, source = Finite 0, n_perpoint = 1,
           det_fraction = Finite 1\<rparr>"
  have s: "spacing ?inp = Finite (1 / 2)"
    by (simp add: spacing_def dsub_def d_of_int_def)
  from sweep_distances [of ?inp low_sampler 0 "1 / 2"] obtain z st where
    m: "main low_sampler ?inp = Inr (z, st)"
    and z: "z = map (\<lambda>i. dadd (z_min ?inp) (dmul (spacing ?inp) (d_of_int (int i))))
              [0..<nat (sint (n_points ?inp))]"
    and f: "2 \<le> sint (n_points ?inp) \<and> z_min ?inp = Finite 0 \<and> spacing ?inp = Finite (1 / 2) \<longrightarrow>
          z ! 0 = Finite 0"
    by auto
  have "z = [Finite 0, Finite (1 / 2), Finite 1]"
    unfolding z s by (simp add: upt_rec d_of_int_def)
  then show ?thesis using m s by simp
qed

text \<open>
  C3 as the specification states it fails at \<open>n_points = 1\<close>: \<open>main\<close> returns, after one
  call of the estimator at the distance NaN (the spacing is \<open>1/0\<close>, an infinity, and
  \<open>\<infinity> * 0\<close> is NaN).
\<close>

theorem single_point_sweep_runs:
  "main low_sampler
     \<lparr>source_type = ''uniform'', detector_type = ''circular'', z_min = Finite 0,
      z_max = Finite 1, n_points = 1, source = Finite 0, n_perpoint = 1,
      det_fraction = Finite 1\<rparr>
   = Inr ([NaN],
       \<lparr>efficiencies = [Finite 0], rel_ers = [PInf], efficiencies_outer = [Finite 0],
        efficiencies_inner = [Finite 0], rel_ers_outer = [Finite 0], rel_ers_inner = [Finite 0],
        calls = [\<lparr>call_z = NaN, call_source = Finite 0, call_n = 1, call_seed = 15763027,
                  call_source_type = ''uniform''\<rparr>]\<rparr>)"
proof -
  let ?inp = "\<lparr>source_type = ''uniform'', detector_type = ''circular'', z_min = Finite 0,
      z_max = Finite 1, n_points = 1, source = Finite 0, n_perpoint = 1,
      det_fraction = Finite 1\<rparr>"
  have l: "linspace (Finite 0) (Finite 1) (1 :: c_int) = Inr [NaN]"
    by (simp add: linspace_eq dsub_def d_of_int_def dinf_def)
  from sweep_circular [of ?inp low_sampler 15763027] obtain z st where
    a: "linspace (z_min ?inp) (z_max ?inp) (n_points ?inp) = Inr z"
      "sweep low_sampler ?inp 15763027 = Inr (z, st)"
      "calls st = map (outer_call ?inp 15763027) z"
      "map Inr (efficiencies st) = map (\<lambda>zi. run_call low_sampler (outer_call ?inp 15763027 zi)) z"
      "rel_ers st = map (rel_er (n_perpoint ?inp)) (efficiencies st)"
    and b: "efficiencies_outer st = zeros (nat (sint (n_points ?inp)))"
      "efficiencies_inner st = zeros (nat (sint (n_points ?inp)))"
      "rel_ers_outer st = zeros (nat (sint (n_points ?inp)))"
      "rel_ers_inner st = zeros (nat (sint (n_points ?inp)))"
    by auto
  have z: "z = [NaN]" using a(1) l by simp
  have "map Inr (efficiencies st) = map (Inr :: double \<Rightarrow> error + double) [Finite 0]"
    unfolding a(4) z by (simp add: run_call_def outer_call_def low_geom_eff_nan)
  then have e: "efficiencies st = [Finite 0]" by (rule map_Inr_eq)
  have r: "rel_ers st = [PInf]" by (simp add: a(5) e rel_er_zero)
  have c: "calls st = [\<lparr>call_z = NaN, call_source = Finite 0, call_n = 1, call_seed = 15763027,
                  call_source_type = ''uniform''\<rparr>]"
    by (simp add: a(3) z outer_call_def)
  have "st = \<lparr>efficiencies = [Finite 0], rel_ers = [PInf], efficiencies_outer = [Finite 0],
        efficiencies_inner = [Finite 0], rel_ers_outer = [Finite 0], rel_ers_inner = [Finite 0],
        calls = [\<lparr>call_z = NaN, call_source = Finite 0, call_n = 1, call_seed = 15763027,
                  call_source_type = ''uniform''\<rparr>]\<rparr>"
    using e r c b by (cases st) (simp add: zeros_def)
  then show ?thesis using a(2) z by (simp add: main_def)
qed

text \<open>
  C4. With an annular detector, the sweep calls the estimator exactly twice for each
  distance \<open>z\<close>, in this order: at \<open>(z, source)\<close> and at
  \<open>(z * det_fraction, source * det_fraction)\<close>, with the same seed and the same sample
  count. It stores the difference of the two efficiencies, and as the relative error
  \<open>sqrt(r_outer\<^sup>2 + r_inner\<^sup>2)\<close>, where each \<open>r\<close> is \<open>rel_er\<close> of the corresponding
  efficiency.
\<close>

theorem annular_sweep_calls:
  assumes "detector_type inp = ''annular''"
    and "source_type inp = ''uniform'' \<or> source_type inp = ''gaussian''"
    and "0 \<le> sint (n_perpoint inp)" and "0 \<le> sint (n_points inp)"
  shows "\<exists>z st. linspace (z_min inp) (z_max inp) (n_points inp) = Inr z
    \<and> sweep S inp seed = Inr (z, st)
    \<and> calls st = concat (map (\<lambda>zi. [outer_call inp seed zi, inner_call inp seed zi]) z)
    \<and> map Inr (efficiencies_outer st) = map (\<lambda>zi. run_call S (outer_call inp seed zi)) z
    \<and> map Inr (efficiencies_inner st) = map (\<lambda>zi. run_call S (inner_call inp seed zi)) z
    \<and> efficiencies st = map2 dsub (efficiencies_outer st) (efficiencies_inner st)
    \<and> rel_ers st = map2 quadrature (map (rel_er (n_perpoint inp)) (efficiencies_outer st))
                                     (map (rel_er (n_perpoint inp)) (efficiencies_inner st))"
proof -
  from sweep_annular [OF assms, of S seed] obtain z st where
    a: "linspace (z_min inp) (z_max inp) (n_points inp) = Inr z"
      "sweep S inp seed = Inr (z, st)"
      "calls st = concat (map (\<lambda>zi. [outer_call inp seed zi, inner_call inp seed zi]) z)"
      "map Inr (efficiencies_outer st) = map (\<lambda>zi. run_call S (outer_call inp seed zi)) z"
      "map Inr (efficiencies_inner st) = map (\<lambda>zi. run_call S (inner_call inp seed zi)) z"
      "efficiencies st = map2 dsub (efficiencies_outer st) (efficiencies_inner st)"
    and b: "rel_ers_outer st = map (rel_er (n_perpoint inp)) (efficiencies_outer st)"
      "rel_ers_inner st = map (rel_er (n_perpoint inp)) (efficiencies_inner st)"
      "rel_ers st = map2 quadrature (rel_ers_outer st) (rel_ers_inner st)"
    by blast
  from b have "rel_ers st = map2 quadrature (map (rel_er (n_perpoint inp)) (efficiencies_outer st))
                                     (map (rel_er (n_perpoint inp)) (efficiencies_inner st))"
    by (simp only:)
  with a show ?thesis by blast
qed

theorem annular_sweep_calls_witness:
  "''annular'' = ''annular'' \<and> (''uniform'' = ''uniform'' \<or> ''uniform'' = ''gaussian'')
   \<and> 0 \<le> sint (1 :: c_int) \<and> 0 \<le> sint (2 :: c_int)
   \<and> (\<exists>st. sweep low_sampler
          \<lparr>source_type = ''uniform'', detector_type = ''annular'', z_min = Finite 1,
           z_max = Finite 2, n_points = 2, source = Finite 1, n_perpoint = 1,
           det_fraction = Finite (1 / 2)\<rparr> 5 = Inr ([Finite 1, Finite 2], st)
        \<and> calls st =
            [\<lparr>call_z = Finite 1, call_source = Finite 1, call_n = 1, call_seed = 5,
              call_source_type = ''uniform''\<rparr>,
             \<lparr>call_z = Finite (1 / 2), call_source = Finite (1 / 2), call_n = 1, call_seed = 5,
              call_source_type = ''uniform''\<rparr>,
             \<lparr>call_z = Finite 2, call_source = Finite 1, call_n = 1, call_seed = 5,
              call_source_type = ''uniform''\<rparr>,
             \<lparr>call_z = Finite 1, call_source = Finite (1 / 2), call_n = 1, call_seed = 5,
              call_source_type = ''uniform''\<rparr>]
        \<and> efficiencies_outer st = [Finite 50, Finite 50]
        \<and> efficiencies_inner st = [Finite 50, Finite 50]
        \<and> efficiencies st = [Finite 0, Finite 0]
        \<and> rel_ers st = [Finite (sqrt 20000), Finite (sqrt 20000)])"
proof -
  let ?inp = "\<lparr>source_type = ''uniform'', detector_type = ''annular'', z_min = Finite 1,
           z_max = Finite 2, n_points = 2, source = Finite 1, n_perpoint = 1,
           det_fraction = Finite (1 / 2)\<rparr>"
  have l: "linspace (Finite 1) (Finite 2) (2 :: c_int) = Inr [Finite 1, Finite 2]"
    by (simp add: linspace_finite upt_rec)
  have r: "run_call low_sampler (outer_call ?inp 5 (Finite u)) = Inr (Finite 50)"
    "run_call low_sampler (inner_call ?inp 5 (Finite u)) = Inr (Finite 50)" for u
    by (simp_all add: run_call_def outer_call_def inner_call_def low_geom_eff_uniform)
  from annular_sweep_calls [of ?inp low_sampler 5] obtain z st where
    a: "linspace (z_min ?inp) (z_max ?inp) (n_points ?inp) = Inr z"
      "sweep low_sampler ?inp 5 = Inr (z, st)"
      "calls st = concat (map (\<lambda>zi. [outer_call ?inp 5 zi, inner_call ?inp 5 zi]) z)"
      "map Inr (efficiencies_outer st) = map (\<lambda>zi. run_call low_sampler (outer_call ?inp 5 zi)) z"
      "map Inr (efficiencies_inner st) = map (\<lambda>zi. run_call low_sampler (inner_call ?inp 5 zi)) z"
      "efficiencies st = map2 dsub (efficiencies_outer st) (efficiencies_inner st)"
      "rel_ers st = map2 quadrature (map (rel_er (n_perpoint ?inp)) (efficiencies_outer st))
                                     (map (rel_er (n_perpoint ?inp)) (efficiencies_inner st))"
    by auto
  have z: "z = [Finite 1, Finite 2]" using a(1) l by simp
  have "map Inr (efficiencies_outer st) = map (Inr :: double \<Rightarrow> error + double) [Finite 50, Finite 50]"
    unfolding a(4) z by (simp add: r)
  then have eo: "efficiencies_outer st = [Finite 50, Finite 50]"
    by (rule map_Inr_eq)
  have "map Inr (efficiencies_inner st) = map (Inr :: double \<Rightarrow> error + double) [Finite 50, Finite 50]"
    unfolding a(5) z by (simp add: r)
  then have ei: "efficiencies_inner st = [Finite 50, Finite 50]"
    by (rule map_Inr_eq)
  have e: "efficiencies st = [Finite 0, Finite 0]"
    by (simp add: a(6) eo ei dsub_def)
  have q: "quadrature (Finite 100) (Finite 100) = Finite (sqrt 20000)"
    by (simp add: quadrature_def)
  have re: "rel_ers st = [Finite (sqrt 20000), Finite (sqrt 20000)]"
    by (simp add: a(7) eo ei rel_er_fifty q)
  have c: "calls st =
            [\<lparr>call_z = Finite 1, call_source = Finite 1, call_n = 1, call_seed = 5,
              call_source_type = ''uniform''\<rparr>,
             \<lparr>call_z = Finite (1 / 2), call_source = Finite (1 / 2), call_n = 1, call_seed = 5,
              call_source_type = ''uniform''\<rparr>,
             \<lparr>call_z = Finite 2, call_source = Finite 1, call_n = 1, call_seed = 5,
              call_source_type = ''uniform''\<rparr>,
             \<lparr>call_z = Finite 1, call_source = Finite (1 / 2), call_n = 1, call_seed = 5,
              call_source_type = ''uniform''\<rparr>]"
    by (simp add: a(3) z outer_call_def inner_call_def)
  show ?thesis using a(2) z eo ei e re c by simp
qed

text \<open>
  C5, as the code has it. With a circular detector and a sample count \<open>N\<close> with
  \<open>1 \<le> N < 2\<^sup>3\<^sup>0\<close> (so that \<open>2 * n_perpoint\<close> does not overflow), a turn of the loop at
  which no summed point is inside the unit disc stores the efficiency 0 and the relative
  error \<open>+\<infinity>\<close>, and goes on: the outcome is data, not a failure.
\<close>

theorem zero_hits_infinite_error:
  assumes "detector_type inp = ''circular''"
    and "source_type inp = ''uniform'' \<or> source_type inp = ''gaussian''"
    and "1 \<le> sint (n_perpoint inp)" and "sint (n_perpoint inp) < 2 ^ 30"
    and "i < length z" and "i < length (efficiencies st)" and "i < length (rel_ers st)"
    and "source_batch S (source_type inp) (source inp) seed (nat (sint (n_perpoint inp))) = Inr src"
    and "emission_batch S (z ! i) (seed + 1) (nat (sint (n_perpoint inp))) = Inr em"
    and "summed_hits src em (nat (sint (n_perpoint inp))) = 0"
  shows "geom_eff_point S (z ! i) (source inp) (n_perpoint inp) seed (source_type inp) = Inr (Finite 0)
    \<and> rel_er (n_perpoint inp) (Finite 0) = PInf
    \<and> (\<exists>st'. main_body S inp seed z i st = Inr st'
          \<and> efficiencies st' ! i = Finite 0 \<and> rel_ers st' ! i = PInf)"
proof -
  have g: "geom_eff_point S (z ! i) (source inp) (n_perpoint inp) seed (source_type inp) = Inr (Finite 0)"
    using geom_eff_point_finite [OF assms(2) assms(3) assms(8) assms(9)] assms(10) by simp
  then have r: "run_call S (outer_call inp seed (z ! i)) = Inr (Finite 0)"
    by (simp add: run_call_def outer_call_def)
  have "main_body S inp seed z i st =
    Inr (st\<lparr>calls := calls st @ [outer_call inp seed (z ! i)],
            efficiencies := (efficiencies st)[i := Finite 0],
            rel_ers := (rel_ers st)[i := rel_er (n_perpoint inp) (Finite 0)]\<rparr>)"
    using assms(1) assms(5-7) r by (rule main_body_circular)
  then show ?thesis using g assms(6,7) by (simp add: rel_er_zero)
qed

theorem zero_hits_infinite_error_witness:
  "''circular'' = ''circular'' \<and> (''gaussian'' = ''uniform'' \<or> ''gaussian'' = ''gaussian'')
   \<and> 1 \<le> sint (3 :: c_int) \<and> sint (3 :: c_int) < 2 ^ 30
   \<and> summed_hits \<lparr>pos_x = replicate 3 (Finite 2), pos_y = replicate 3 (Finite 0)\<rparr> (zero_position 3) 3 = 0
   \<and> geom_eff_point low_sampler (Finite 1) (Finite 1) 3 7 ''gaussian'' = Inr (Finite 0)
   \<and> rel_er 3 (Finite 0) = PInf
   \<and> (\<exists>st'. main_body low_sampler
          \<lparr>source_type = ''gaussian'', detector_type = ''circular'', z_min = Finite 1,
           z_max = Finite 1, n_points = 1, source = Finite 1, n_perpoint = 3,
           det_fraction = Finite 1\<rparr> 7 [Finite 1] 0 (initial_state 1) = Inr st'
        \<and> efficiencies st' ! 0 = Finite 0 \<and> rel_ers st' ! 0 = PInf)"
proof -
  let ?inp = "\<lparr>source_type = ''gaussian'', detector_type = ''circular'', z_min = Finite 1,
           z_max = Finite 1, n_points = 1, source = Finite 1, n_perpoint = 3,
           det_fraction = Finite 1\<rparr>"
  let ?src = "\<lparr>pos_x = replicate 3 (Finite 2), pos_y = replicate 3 (Finite 0)\<rparr>"
  have h: "summed_hits ?src (zero_position 3) 3 = 0"
    by (simp add: zero_position_def summed_hits_replicate inside_unit_disc_def)
  have s: "source_batch low_sampler (source_type ?inp) (source ?inp) 7 (nat (sint (n_perpoint ?inp)))
      = Inr ?src"
    using low_source_gaussian [of 1 7 3] by simp
  have e: "emission_batch low_sampler ([Finite 1] ! 0) (7 + 1) (nat (sint (n_perpoint ?inp)))
      = Inr (zero_position 3)"
    by (simp add: low_emission)
  have "geom_eff_point low_sampler ([Finite 1] ! 0) (source ?inp) (n_perpoint ?inp) 7 (source_type ?inp)
      = Inr (Finite 0)
    \<and> rel_er (n_perpoint ?inp) (Finite 0) = PInf
    \<and> (\<exists>st'. main_body low_sampler ?inp 7 [Finite 1] 0 (initial_state 1) = Inr st'
          \<and> efficiencies st' ! 0 = Finite 0 \<and> rel_ers st' ! 0 = PInf)"
    by (rule zero_hits_infinite_error [OF _ _ _ _ _ _ _ s e])
       (simp_all add: h initial_state_def zeros_def)
  then show ?thesis using h by simp
qed

text \<open>
  C5 as the specification states it fails at \<open>N = 0\<close>: line 149 divides \<open>50.0 * 0\<close> by 0,
  so the efficiency is NaN, not 0, and the relative error of a NaN efficiency is NaN.
\<close>

theorem no_samples_gives_nan:
  "geom_eff_point low_sampler (Finite 1) (Finite 1) 0 7 ''uniform'' = Inr NaN
   \<and> rel_er 0 NaN = NaN"
proof -
  have "geom_eff_point low_sampler (Finite 1) (Finite 1) 0 7 ''uniform'' =
    Inr (ddiv (dmul (Finite 50) (d_of_int (int (summed_hits (zero_position 0) (zero_position 0) (nat (sint (0 :: c_int)))))))
           (d_of_int (sint (0 :: c_int))))"
    by (rule geom_eff_point_eq) (simp_all add: low_source_uniform low_emission)
  then show ?thesis
    by (simp add: summed_hits_def d_of_int_def rel_er_def)
qed

text \<open>
  C6. The estimator is deterministic. Each generator builds its engine from the seed, so
  what it stores depends on the seed, the parameter and the size of the batch only: not on
  what the batch held before, and a batch of \<open>k\<close> points is the first \<open>k\<close> points of a
  longer batch from the same seed (the same draws in the same order). In a sweep, two
  turns at the same distance call the estimator with the same arguments and store the
  same efficiency and the same relative error.
\<close>

theorem evaluation_deterministic:
  assumes "length (pos_y p) = length (pos_x p)" and "length (pos_y q) = length (pos_x q)"
    and "length (pos_x q) = length (pos_x p)" and "k \<le> length (pos_x p)"
    and "detector_type inp = ''circular'' \<or> detector_type inp = ''annular''"
    and "source_type inp = ''uniform'' \<or> source_type inp = ''gaussian''"
    and "0 \<le> sint (n_perpoint inp)" and "0 \<le> sint (n_points inp)"
  shows "generate_circular_distr S r seed p = generate_circular_distr S r seed q
    \<and> generate_gaussian_distr S r seed p = generate_gaussian_distr S r seed q
    \<and> generate_isotropic S r seed p = generate_isotropic S r seed q
    \<and> (\<exists>a b. generate_circular_distr S r seed p = Inr a
          \<and> generate_circular_distr S r seed (zero_position k) = Inr b
          \<and> pos_x b = take k (pos_x a) \<and> pos_y b = take k (pos_y a))
    \<and> (\<exists>a b. generate_gaussian_distr S r seed p = Inr a
          \<and> generate_gaussian_distr S r seed (zero_position k) = Inr b
          \<and> pos_x b = take k (pos_x a) \<and> pos_y b = take k (pos_y a))
    \<and> (\<exists>a b. generate_isotropic S r seed p = Inr a
          \<and> generate_isotropic S r seed (zero_position k) = Inr b
          \<and> pos_x b = take k (pos_x a) \<and> pos_y b = take k (pos_y a))
    \<and> (\<exists>z st. linspace (z_min inp) (z_max inp) (n_points inp) = Inr z
          \<and> sweep S inp seed = Inr (z, st)
          \<and> (\<forall>i<length z. \<forall>j<length z. z ! i = z ! j \<longrightarrow>
                efficiencies st ! i = efficiencies st ! j \<and> rel_ers st ! i = rel_ers st ! j))"
proof -
  note same = fill_same [OF assms(1-3)]
  note pre = fill_prefix [OF assms(1,4)]
  note sw = sweep_same_distance [OF assms(5-8), of S seed]
  show ?thesis
    unfolding generate_circular_distr_def generate_gaussian_distr_def generate_isotropic_def
    by (intro conjI same pre sw)
qed

theorem evaluation_deterministic_witness:
  "length (pos_y (zero_position 2)) = length (pos_x (zero_position 2))
   \<and> (1 :: nat) \<le> length (pos_x (zero_position 2))
   \<and> 0 \<le> sint (1 :: c_int) \<and> 0 \<le> sint (2 :: c_int)
   \<and> generate_circular_distr low_sampler (Finite 3) 7 (zero_position 2)
       = generate_circular_distr low_sampler (Finite 3) 7
           \<lparr>pos_x = [Finite 7, NaN], pos_y = [PInf, Finite 1]\<rparr>
   \<and> (\<exists>st. sweep low_sampler
          \<lparr>source_type = ''uniform'', detector_type = ''circular'', z_min = Finite 1,
           z_max = Finite 1, n_points = 2, source = Finite 0, n_perpoint = 1,
           det_fraction = Finite 1\<rparr> 7 = Inr ([Finite 1, Finite 1], st)
        \<and> efficiencies st ! 0 = efficiencies st ! 1 \<and> rel_ers st ! 0 = rel_ers st ! 1)"
proof -
  let ?inp = "\<lparr>source_type = ''uniform'', detector_type = ''circular'', z_min = Finite 1,
           z_max = Finite 1, n_points = 2, source = Finite 0, n_perpoint = 1,
           det_fraction = Finite 1\<rparr>"
  let ?q = "\<lparr>pos_x = [Finite 7, NaN], pos_y = [PInf, Finite 1]\<rparr>"
  have l: "linspace (Finite 1) (Finite 1) (2 :: c_int) = Inr [Finite 1, Finite 1]"
    by (simp add: linspace_finite upt_rec)
  have d: "generate_circular_distr low_sampler (Finite 3) 7 (zero_position 2)
       = generate_circular_distr low_sampler (Finite 3) 7 ?q
    \<and> (\<exists>z st. linspace (z_min ?inp) (z_max ?inp) (n_points ?inp) = Inr z
          \<and> sweep low_sampler ?inp 7 = Inr (z, st)
          \<and> (\<forall>i<length z. \<forall>j<length z. z ! i = z ! j \<longrightarrow>
                efficiencies st ! i = efficiencies st ! j \<and> rel_ers st ! i = rel_ers st ! j))"
    using evaluation_deterministic [of "zero_position 2" ?q 1 ?inp low_sampler "Finite 3" 7]
    by (simp add: zero_position_def)
  then obtain z st where z: "linspace (z_min ?inp) (z_max ?inp) (n_points ?inp) = Inr z"
    and sw: "sweep low_sampler ?inp 7 = Inr (z, st)"
    and eq: "\<forall>i<length z. \<forall>j<length z. z ! i = z ! j \<longrightarrow>
                efficiencies st ! i = efficiencies st ! j \<and> rel_ers st ! i = rel_ers st ! j"
    by blast
  have zv: "z = [Finite 1, Finite 1]" using z l by simp
  have "efficiencies st ! 0 = efficiencies st ! 1 \<and> rel_ers st ! 0 = rel_ers st ! 1"
    using eq [rule_format, of 0 1] by (simp add: zv)
  then show ?thesis using d sw zv by (simp add: zero_position_def)
qed

text \<open>
  C7, as the code has it. \<open>add_vec\<close> compares the size of \<open>x\<close> with the size of \<open>x_diff\<close>
  and nothing else: it ends the run with the size mismatch error exactly when these two
  differ. When the two sequences of the batch and the two offset sequences all have the
  same length it adds the offsets elementwise in place.
\<close>

theorem add_vec_translate:
  "(add_vec p x_diff y_diff = Inl SizeMismatch \<longleftrightarrow> length (pos_x p) \<noteq> length x_diff)
   \<and> (length (pos_x p) = length x_diff \<and> length (pos_y p) = length x_diff
        \<and> length y_diff = length x_diff \<longrightarrow>
      add_vec p x_diff y_diff =
        Inr \<lparr>pos_x = map2 dadd (pos_x p) x_diff, pos_y = map2 dadd (pos_y p) y_diff\<rparr>)"
proof (intro conjI impI iffI)
  assume "add_vec p x_diff y_diff = Inl SizeMismatch"
  show "length (pos_x p) \<noteq> length x_diff"
  proof
    assume eq: "length (pos_x p) = length x_diff"
    then have "for_loop 0 (length (pos_x p)) (add_vec_body x_diff y_diff) p = Inl SizeMismatch"
      using \<open>add_vec p x_diff y_diff = Inl SizeMismatch\<close> by (simp add: add_vec_def)
    then have "SizeMismatch = OutOfBounds"
      by (rule for_loop_error_kind) (rule add_vec_body_error)
    then show False by simp
  qed
next
  assume "length (pos_x p) \<noteq> length x_diff"
  then show "add_vec p x_diff y_diff = Inl SizeMismatch" by (rule add_vec_mismatch)
next
  assume l: "length (pos_x p) = length x_diff \<and> length (pos_y p) = length x_diff
        \<and> length y_diff = length x_diff"
  have "add_vec p x_diff y_diff =
    Inr \<lparr>pos_x = map (\<lambda>i. dadd (pos_x p ! i) (x_diff ! i)) [0..<length (pos_x p)],
         pos_y = map (\<lambda>i. dadd (pos_y p ! i) (y_diff ! i)) [0..<length (pos_x p)]\<rparr>"
    by (rule add_vec_eq) (simp_all add: l)
  moreover have "map (\<lambda>i. dadd (pos_x p ! i) (x_diff ! i)) [0..<length (pos_x p)] = map2 dadd (pos_x p) x_diff"
    by (rule map_index_zip) (simp add: l)
  moreover have "map (\<lambda>i. dadd (pos_y p ! i) (y_diff ! i)) [0..<length (pos_y p)] = map2 dadd (pos_y p) y_diff"
    by (rule map_index_zip) (simp add: l)
  ultimately show "add_vec p x_diff y_diff =
        Inr \<lparr>pos_x = map2 dadd (pos_x p) x_diff, pos_y = map2 dadd (pos_y p) y_diff\<rparr>"
    using l by simp
qed

theorem add_vec_translate_witness:
  "add_vec \<lparr>pos_x = [Finite 1, Finite 2], pos_y = [Finite 3, Finite 4]\<rparr> [Finite 10, Finite 20] [Finite 30, PInf]
     = Inr \<lparr>pos_x = [Finite 11, Finite 22], pos_y = [Finite 33, PInf]\<rparr>
   \<and> add_vec \<lparr>pos_x = [Finite 1, Finite 2], pos_y = [Finite 3, Finite 4]\<rparr> [Finite 10] [Finite 30]
     = Inl SizeMismatch"
  using add_vec_translate [of "\<lparr>pos_x = [Finite 1, Finite 2], pos_y = [Finite 3, Finite 4]\<rparr>"
      "[Finite 10, Finite 20]" "[Finite 30, PInf]"]
    add_vec_translate [of "\<lparr>pos_x = [Finite 1, Finite 2], pos_y = [Finite 3, Finite 4]\<rparr>"
      "[Finite 10]" "[Finite 30]"]
  by simp

text \<open>
  C7 as the specification states it fails for an offset sequence \<open>y_diff\<close> longer than
  the batch: the lengths differ, and \<open>add_vec\<close> adds the first elements and returns.
\<close>

theorem y_diff_length_unchecked:
  "add_vec \<lparr>pos_x = [Finite 1], pos_y = [Finite 2]\<rparr> [Finite 10] [Finite 20, Finite 30]
     = Inr \<lparr>pos_x = [Finite 11], pos_y = [Finite 22]\<rparr>"
proof -
  have "add_vec_body [Finite 10] [Finite 20, Finite 30] 0 \<lparr>pos_x = [Finite 1], pos_y = [Finite 2]\<rparr>
      = Inr \<lparr>pos_x = [Finite 11], pos_y = [Finite 22]\<rparr>"
    by (simp add: add_vec_body_def)
  then have "for_loop 0 (Suc 0) (add_vec_body [Finite 10] [Finite 20, Finite 30])
        \<lparr>pos_x = [Finite 1], pos_y = [Finite 2]\<rparr>
      = Inr \<lparr>pos_x = [Finite 11], pos_y = [Finite 22]\<rparr>"
    by (simp add: for_loop_step for_loop_done)
  then show ?thesis by (simp add: add_vec_def)
qed

text \<open>
  C8, as the code has it. \<open>point_source\<close> computes \<open>ps\<close>, line 114 in binary64
  arithmetic, for every distance of its input, and \<open>ps(0) = 50\<close> exactly, the value of
  the formula \<open>50 - 50 z / sqrt(1 + z\<^sup>2)\<close> at 0. The formula is strictly decreasing on
  \<open>z \<ge> 0\<close> as a function on the real numbers; the doubles that the code computes are
  not (see below).
\<close>

theorem point_source_formula:
  "point_source zs = Inr (map ps zs)
   \<and> ps (Finite 0) = Finite 50
   \<and> ps (Finite 0) = Finite (ps_formula 0)
   \<and> (0 \<le> a \<and> a < b \<longrightarrow> ps_formula b < ps_formula a)"
proof -
  have "0 \<le> a \<and> a < b \<longrightarrow> ps_formula b < ps_formula a"
    using ratio_strict_mono [of a b] by (auto simp: ps_formula_def)
  then show ?thesis by (simp add: point_source_eq ps_zero ps_formula_def)
qed

theorem point_source_formula_witness:
  "(0::real) \<le> 0 \<and> (0::real) < 1
   \<and> point_source [Finite 0, Finite (2 ^ 27)] = Inr [Finite 50, Finite 0]
   \<and> ps_formula 1 < ps_formula 0"
proof -
  have a: "(0::real) \<le> 0 \<and> (0::real) < 1" by simp
  have t: "point_source [Finite 0, Finite (2 ^ 27)] = Inr (map ps [Finite 0, Finite (2 ^ 27)])
     \<and> (0 \<le> (0::real) \<and> (0::real) < 1 \<longrightarrow> ps_formula 1 < ps_formula 0)"
    using point_source_formula [of "[Finite 0, Finite (2 ^ 27)]" 0 1] by blast
  have m: "map ps [Finite 0, Finite (2 ^ 27)] = [Finite 50, Finite 0]"
    by (simp only: list.map ps_zero ps_examples)
  show ?thesis using a t unfolding m by blast
qed

text \<open>
  C8 as the specification states it fails in binary64: \<open>1 + z\<^sup>2\<close> rounds to \<open>z\<^sup>2\<close> from
  \<open>z = 2^27\<close> on, so that \<open>ps(2^27) = ps(2^28) = 0\<close>, and \<open>pow\<close> overflows at \<open>z = 2^512\<close>,
  where \<open>ps\<close> is 50 again.
\<close>

theorem point_source_not_decreasing:
  "(2::real) ^ 27 < 2 ^ 28 \<and> (2::real) ^ 28 < 2 ^ 512
   \<and> ps (Finite (2 ^ 27)) = Finite 0 \<and> ps (Finite (2 ^ 28)) = Finite 0
   \<and> ps (Finite (2 ^ 512)) = Finite 50"
proof -
  have "ps (Finite (2 ^ 27)) = Finite 0" "ps (Finite (2 ^ 28)) = Finite 0"
    "ps (Finite (2 ^ 512)) = Finite 50"
    by (rule ps_examples)+
  moreover have "(2::real) ^ 27 < 2 ^ 28" "(2::real) ^ 28 < 2 ^ 512"
    by (simp_all only: power_strict_increasing_iff one_less_numeral_iff semiring_norm)
  ultimately show ?thesis by (simp only: simp_thms)
qed

text \<open>
  C9. For every radius \<open>r\<close> and every seed, every point that
  \<open>generate_circular_distr\<close> stores lies in the disc of radius \<open>r\<close>:
  \<open>x\<^sup>2 + y\<^sup>2 \<le> r\<^sup>2\<close>, for a sampler whose uniform draws lie between their bounds.
  The arithmetic is exact, so the bound holds without a tolerance; it needs no sign
  condition on \<open>r\<close>.
\<close>

theorem generate_circular_inside_disc:
  assumes "uniform_within S" and "length (pos_y p) = length (pos_x p)"
  shows "\<exists>q. generate_circular_distr S (Finite r) seed p = Inr q
    \<and> length (pos_x q) = length (pos_x p) \<and> length (pos_y q) = length (pos_x p)
    \<and> (\<forall>i<length (pos_x p). \<exists>vx vy. pos_x q ! i = Finite vx \<and> pos_y q ! i = Finite vy
          \<and> vx\<^sup>2 + vy\<^sup>2 \<le> r\<^sup>2)"
proof -
  let ?n = "length (pos_x p)"
  let ?draw = "circular_draw S (Finite r)"
  let ?q = "\<lparr>pos_x = map (\<lambda>i. fst (point_at ?draw (engine S seed) i)) [0..<?n],
            pos_y = map (\<lambda>i. snd (point_at ?draw (engine S seed) i)) [0..<?n]\<rparr>"
  have q: "generate_circular_distr S (Finite r) seed p = Inr ?q"
    unfolding generate_circular_distr_def by (rule fill_eq) (simp_all add: assms(2))
  have "\<exists>vx vy. pos_x ?q ! i = Finite vx \<and> pos_y ?q ! i = Finite vy \<and> vx\<^sup>2 + vy\<^sup>2 \<le> r\<^sup>2"
    if "i < ?n" for i
  proof -
    obtain vx vy where "point_at ?draw (engine S seed) i = (Finite vx, Finite vy)" "vx\<^sup>2 + vy\<^sup>2 \<le> r\<^sup>2"
      using circular_draw_inside [OF assms(1)] unfolding point_at_def by blast
    then show ?thesis using that by simp
  qed
  then show ?thesis using q by simp
qed

theorem generate_circular_inside_disc_witness:
  "uniform_within low_sampler
   \<and> length (pos_y (zero_position 2)) = length (pos_x (zero_position 2))
   \<and> (\<exists>q. generate_circular_distr low_sampler (Finite 3) 7 (zero_position 2) = Inr q
        \<and> length (pos_x q) = 2 \<and> length (pos_y q) = 2
        \<and> (\<forall>i<2. \<exists>vx vy. pos_x q ! i = Finite vx \<and> pos_y q ! i = Finite vy \<and> vx\<^sup>2 + vy\<^sup>2 \<le> 3\<^sup>2))"
  using generate_circular_inside_disc [OF low_sampler_within, of "zero_position 2" 3 7]
  by (simp add: low_sampler_within zero_position_def)

text \<open>
  C10. For every sample count \<open>n \<ge> 1\<close>, distance, source size, recognised source type
  and seed, the efficiency that one call of \<open>geom_eff_point\<close> returns is a number
  between 0 and 50.
\<close>

theorem geom_eff_point_range:
  assumes "ty = ''uniform'' \<or> ty = ''gaussian''" and "1 \<le> sint n"
  shows "\<exists>e. geom_eff_point S z src_size n seed ty = Inr (Finite e) \<and> 0 \<le> e \<and> e \<le> 50"
proof -
  obtain src where src: "source_batch S ty src_size seed (nat (sint n)) = Inr src"
    using source_batch_ok by blast
  obtain em where em: "emission_batch S z (seed + 1) (nat (sint n)) = Inr em"
    using emission_batch_ok by blast
  define N where "N = nat (sint n)"
  define h where "h = summed_hits src em N"
  have N: "0 < N" using assms(2) by (simp add: N_def)
  have h: "h \<le> N" by (simp add: h_def summed_hits_le)
  have "geom_eff_point S z src_size n seed ty = Inr (Finite (50 * real h / real N))"
    unfolding h_def N_def using assms src em by (rule geom_eff_point_finite)
  moreover have "0 \<le> 50 * real h / real N" by simp
  moreover have "50 * real h / real N \<le> 50"
    using N h by (simp add: divide_simps)
  ultimately show ?thesis by blast
qed

theorem geom_eff_point_range_witness:
  "(''gaussian'' = ''uniform'' \<or> ''gaussian'' = ''gaussian'') \<and> 1 \<le> sint (3 :: c_int)
   \<and> (\<exists>e. geom_eff_point low_sampler (Finite 2) (Finite 1) 3 7 ''gaussian'' = Inr (Finite e)
         \<and> 0 \<le> e \<and> e \<le> 50)"
  using geom_eff_point_range [of "''gaussian''" 3 low_sampler "Finite 2" "Finite 1" 7]
  by simp

end
